theory Spec2Isabelle
  imports Complex_Main "HOL-Library.Product_Lexorder"
begin

section \<open>Data model (core/models.py)\<close>

text \<open>
  Python floats are read as real numbers (the section on binary64 gives the hours accounting
  again with the rounding of every operation written out), and a naive \<^verbatim>\<open>datetime\<close> as the integer count of
  microseconds since a fixed epoch, so that \<^verbatim>\<open>.date()\<close> is the quotient by the length of a
  day and \<^verbatim>\<open>total_seconds() / 3600\<close> is the difference divided by the length of an hour.
  Objects that the code shares and mutates (employees, projects) live in a store indexed by
  references; a list of objects is a list of references.
\<close>

datatype SkillType = PRODUCER | EDITOR | GRAPHICS_DESIGNER | COLORIST | AUDIO_ENGINEER

datatype ProjectStatus = PENDING | SCHEDULED | IN_PROGRESS | COMPLETED | CANCELLED

type_synonym datetime = int

definition us_per_hour :: int where
  "us_per_hour = 3600000000"

definition us_per_day :: int where
  "us_per_day = 86400000000"

definition date_of :: "datetime \<Rightarrow> int" where
  "date_of t = t div us_per_day"

record TimeSlot =
  ts_start :: datetime
  ts_end :: datetime

text \<open>Every exception of the modelled code is a \<^verbatim>\<open>ValueError\<close>, told apart by its message,
  except \<open>IndexError\<close>, which indexing an empty list raises.\<close>

datatype error =
    EndNotAfterStart datetime datetime
  | NotExactlyFiveSkills nat
  | SkillsNotAllDifferent
  | EmployeeNotAvailable string TimeSlot
  | CannotAssign string string
  | NoCandidatesAvailable
  | EmployeeIdExists int
  | ProjectIdExists int
  | IndexError

definition TimeSlot_post_init :: "TimeSlot \<Rightarrow> error + TimeSlot" where
  "TimeSlot_post_init self =
     (if ts_end self \<le> ts_start self then Inl (EndNotAfterStart (ts_end self) (ts_start self))
      else Inr self)"

definition duration_hours :: "TimeSlot \<Rightarrow> real" where
  "duration_hours self = real_of_int (ts_end self - ts_start self) / real_of_int us_per_hour"

definition overlaps_with :: "TimeSlot \<Rightarrow> TimeSlot \<Rightarrow> bool" where
  "overlaps_with self other =
     (\<not> (ts_end self \<le> ts_start other \<or> ts_start self \<ge> ts_end other))"

record Assignment =
  a_employee :: nat
  a_project :: nat
  a_time_slot :: TimeSlot

record Employee =
  emp_id :: int
  emp_name :: string
  skills :: "SkillType set"
  regular_hours_worked :: real
  overtime_hours_worked :: real
  assignments :: "Assignment list"
  unavailable_slots :: "TimeSlot list"
  MAX_REGULAR_HOURS_PER_DAY :: real
  REGULAR_RATE :: real
  OVERTIME_RATE :: real

text \<open>The defaults of the three annotated class attributes, which \<^verbatim>\<open>Employee.X\<close> reads.\<close>

definition Employee_MAX_REGULAR_HOURS_PER_DAY :: real where
  "Employee_MAX_REGULAR_HOURS_PER_DAY = 8"

definition Employee_REGULAR_RATE :: real where
  "Employee_REGULAR_RATE = 1"

definition Employee_OVERTIME_RATE :: real where
  "Employee_OVERTIME_RATE = 13 / 10"

text \<open>\<^verbatim>\<open>Employee(id, name, skills)\<close> with every other field at its default.\<close>

definition new_Employee :: "int \<Rightarrow> string \<Rightarrow> SkillType set \<Rightarrow> Employee" where
  "new_Employee i n ss =
     \<lparr>emp_id = i, emp_name = n, skills = ss,
      regular_hours_worked = 0, overtime_hours_worked = 0,
      assignments = [], unavailable_slots = [],
      MAX_REGULAR_HOURS_PER_DAY = Employee_MAX_REGULAR_HOURS_PER_DAY,
      REGULAR_RATE = Employee_REGULAR_RATE,
      OVERTIME_RATE = Employee_OVERTIME_RATE\<rparr>"

definition has_skill :: "Employee \<Rightarrow> SkillType \<Rightarrow> bool" where
  "has_skill self skill = (skill \<in> skills self)"

definition is_available :: "Employee \<Rightarrow> TimeSlot \<Rightarrow> bool" where
  "is_available self time_slot =
     (if \<exists>unavailable \<in> set (unavailable_slots self). overlaps_with time_slot unavailable
      then False
      else if \<exists>assignment \<in> set (assignments self).
                overlaps_with time_slot (a_time_slot assignment)
      then False
      else True)"

text \<open>The generator expression summed in \<^verbatim>\<open>_update_hours\<close> and in
  \<^verbatim>\<open>_calculate_employee_score\<close>: the hours of the listed assignments that start on a date.\<close>

definition daily_hours_on :: "Assignment list \<Rightarrow> int \<Rightarrow> real" where
  "daily_hours_on as d =
     sum_list (map (\<lambda>a. duration_hours (a_time_slot a))
                   (filter (\<lambda>a. date_of (ts_start (a_time_slot a)) = d) as))"

text \<open>The pair \<open>(regular, overtime)\<close> that \<^verbatim>\<open>_update_hours\<close> computes before adding it to the
  totals. It reads \<open>assignments self\<close> as it is when \<^verbatim>\<open>_update_hours\<close> runs.\<close>

definition hours_split :: "Employee \<Rightarrow> TimeSlot \<Rightarrow> real \<times> real" where
  "hours_split self time_slot =
     (let hours = duration_hours time_slot;
          assignment_date = date_of (ts_start time_slot);
          daily_hours = daily_hours_on (assignments self) assignment_date
      in if daily_hours \<le> MAX_REGULAR_HOURS_PER_DAY self
         then (let regular = min hours (MAX_REGULAR_HOURS_PER_DAY self - daily_hours)
               in (regular, max 0 (hours - regular)))
         else (0, hours))"

definition update_hours :: "Employee \<Rightarrow> TimeSlot \<Rightarrow> Employee" where
  "update_hours self time_slot =
     (case hours_split self time_slot of
        (regular, overtime) \<Rightarrow>
          self\<lparr>regular_hours_worked := regular_hours_worked self + regular,
               overtime_hours_worked := overtime_hours_worked self + overtime\<rparr>)"

text \<open>\<^verbatim>\<open>add_assignment\<close> appends first and calls \<^verbatim>\<open>_update_hours\<close> on the extended list.\<close>

definition add_assignment :: "Employee \<Rightarrow> Assignment \<Rightarrow> error + Employee" where
  "add_assignment self assignment =
     (if \<not> is_available self (a_time_slot assignment)
      then Inl (EmployeeNotAvailable (emp_name self) (a_time_slot assignment))
      else Inr (update_hours (self\<lparr>assignments := assignments self @ [assignment]\<rparr>)
                             (a_time_slot assignment)))"

definition emp_total_cost :: "Employee \<Rightarrow> real" where
  "emp_total_cost self =
     regular_hours_worked self * REGULAR_RATE self
     + overtime_hours_worked self * OVERTIME_RATE self"

section \<open>Hours in binary64\<close>












section \<open>Projects and schedules\<close>

record Project =
  proj_id :: int
  proj_name :: string
  time_slot :: TimeSlot
  required_skills :: "SkillType list"
  assigned_employees :: "nat list"
  status :: ProjectStatus
  priority :: int
  is_fixed :: bool

text \<open>The constructor's check: the result is the project itself or the exception raised.\<close>

definition Project_post_init :: "Project \<Rightarrow> error + Project" where
  "Project_post_init self =
     (if length (required_skills self) \<noteq> 5
      then Inl (NotExactlyFiveSkills (length (required_skills self)))
      else if card (set (required_skills self)) \<noteq> 5
      then Inl SkillsNotAllDifferent
      else Inr self)"

definition is_fully_staffed :: "Project \<Rightarrow> bool" where
  "is_fully_staffed self = (length (assigned_employees self) = 5)"

record State =
  emp :: "nat \<Rightarrow> Employee"
  proj :: "nat \<Rightarrow> Project"
  rng_pos :: nat

record Schedule =
  employees :: "nat list"
  projects :: "nat list"

definition get_missing_skills :: "State \<Rightarrow> Project \<Rightarrow> SkillType list" where
  "get_missing_skills st self =
     filter (\<lambda>required_skill.
               \<not> (\<exists>e \<in> set (assigned_employees self). has_skill (emp st e) required_skill))
            (required_skills self)"

text \<open>The ids of the employees that a schedule lists or a project of it holds are pairwise
  different. \<^verbatim>\<open>Schedule.add_employee\<close> refuses an id that the schedule has already.\<close>

definition unique_ids :: "State \<Rightarrow> Schedule \<Rightarrow> bool" where
  "unique_ids st sched =
     inj_on (\<lambda>r. emp_id (emp st r))
       (set (employees sched)
        \<union> (\<Union>p \<in> set (projects sched). set (assigned_employees (proj st p))))"

text \<open>\<^verbatim>\<open>in\<close> compares two employees by identity first and then by the generated equality,
  field by field from \<open>id\<close> on. On employees with different ids the second comparison ends
  at \<open>id\<close>, so that membership is membership of the reference; this is the case of the
  schedules that satisfy \<open>unique_ids\<close>.\<close>

definition can_assign_employee :: "State \<Rightarrow> nat \<Rightarrow> nat \<Rightarrow> bool" where
  "can_assign_employee st pr er =
     (if er \<in> set (assigned_employees (proj st pr)) then False
      else if is_fully_staffed (proj st pr) then False
      else if \<not> (\<exists>skill \<in> set (get_missing_skills st (proj st pr)).
                   has_skill (emp st er) skill) then False
      else if \<not> is_available (emp st er) (time_slot (proj st pr)) then False
      else True)"

text \<open>An exception leaves the mutations made before it in place, so the state is returned
  beside the exception (\<open>Some\<close>) or beside \<open>None\<close> on a normal return.\<close>

definition assign_employee :: "State \<Rightarrow> nat \<Rightarrow> nat \<Rightarrow> State \<times> error option" where
  "assign_employee st pr er =
     (if \<not> can_assign_employee st pr er
      then (st, Some (CannotAssign (emp_name (emp st er)) (proj_name (proj st pr))))
      else
        (let st1 = st\<lparr>proj := (proj st)(pr := (proj st pr)
                     \<lparr>assigned_employees := assigned_employees (proj st pr) @ [er]\<rparr>)\<rparr>;
             assignment = \<lparr>a_employee = er, a_project = pr,
                           a_time_slot = time_slot (proj st1 pr)\<rparr>
         in case add_assignment (emp st1 er) assignment of
              Inl e \<Rightarrow> (st1, Some e)
            | Inr e' \<Rightarrow>
                (let st2 = st1\<lparr>emp := (emp st1)(er := e')\<rparr>
                 in if is_fully_staffed (proj st2 pr)
                    then (st2\<lparr>proj := (proj st2)(pr := (proj st2 pr)\<lparr>status := SCHEDULED\<rparr>)\<rparr>,
                          None)
                    else (st2, None))))"

definition add_employee :: "State \<Rightarrow> Schedule \<Rightarrow> nat \<Rightarrow> error + Schedule" where
  "add_employee st self er =
     (if \<exists>e \<in> set (employees self). emp_id (emp st e) = emp_id (emp st er)
      then Inl (EmployeeIdExists (emp_id (emp st er)))
      else Inr (self\<lparr>employees := employees self @ [er]\<rparr>))"

definition add_project :: "State \<Rightarrow> Schedule \<Rightarrow> nat \<Rightarrow> error + Schedule" where
  "add_project st self pr =
     (if \<exists>p \<in> set (projects self). proj_id (proj st p) = proj_id (proj st pr)
      then Inl (ProjectIdExists (proj_id (proj st pr)))
      else Inr (self\<lparr>projects := projects self @ [pr]\<rparr>))"

definition get_employee_by_id :: "State \<Rightarrow> Schedule \<Rightarrow> int \<Rightarrow> nat option" where
  "get_employee_by_id st self employee_id =
     find (\<lambda>e. emp_id (emp st e) = employee_id) (employees self)"

definition get_project_by_id :: "State \<Rightarrow> Schedule \<Rightarrow> int \<Rightarrow> nat option" where
  "get_project_by_id st self project_id =
     find (\<lambda>p. proj_id (proj st p) = project_id) (projects self)"

definition get_available_employees :: "State \<Rightarrow> Schedule \<Rightarrow> TimeSlot \<Rightarrow> SkillType \<Rightarrow> nat list" where
  "get_available_employees st self ts skill =
     filter (\<lambda>e. has_skill (emp st e) skill \<and> is_available (emp st e) ts) (employees self)"

definition schedule_total_cost :: "State \<Rightarrow> Schedule \<Rightarrow> real" where
  "schedule_total_cost st self = sum_list (map (\<lambda>e. emp_total_cost (emp st e)) (employees self))"

section \<open>Schedulers (core/scheduler.py)\<close>

text \<open>
  \<^verbatim>\<open>random.random()\<close> reads the generator of the \<^verbatim>\<open>random\<close> module, which the process
  shares. The values it yields one after the other are a sequence \<open>rnd\<close>, and \<open>rng_pos\<close> in
  the state counts those already drawn.
\<close>

record GreedyScheduler =
  balance_workload :: bool
  minimize_overtime :: bool

definition calculate_employee_score ::
  "GreedyScheduler \<Rightarrow> (nat \<Rightarrow> real) \<Rightarrow> State \<Rightarrow> nat \<Rightarrow> nat \<Rightarrow> State \<times> real" where
  "calculate_employee_score self rnd st er pr =
     (let score0 = 0;
          score1 = (if balance_workload self
                    then score0 + (1000 - (regular_hours_worked (emp st er)
                                           + overtime_hours_worked (emp st er)))
                    else score0);
          score2 = (if minimize_overtime self
                    then (let project_date = date_of (ts_start (time_slot (proj st pr)));
                              daily_hours = daily_hours_on (assignments (emp st er)) project_date;
                              regular_hours_available =
                                max 0 (Employee_MAX_REGULAR_HOURS_PER_DAY - daily_hours)
                          in score1 + regular_hours_available * 100)
                    else score1)
      in (st\<lparr>rng_pos := Suc (rng_pos st)\<rparr>, score2 + rnd (rng_pos st)))"

text \<open>The loop of \<^verbatim>\<open>_select_best_employee\<close> that scores the candidates in their order.\<close>

fun score_candidates ::
  "GreedyScheduler \<Rightarrow> (nat \<Rightarrow> real) \<Rightarrow> State \<Rightarrow> nat list \<Rightarrow> nat \<Rightarrow> State \<times> (real \<times> nat) list" where
  "score_candidates self rnd st [] pr = (st, [])"
| "score_candidates self rnd st (c # cs) pr =
     (case calculate_employee_score self rnd st c pr of
        (st1, score) \<Rightarrow>
          (case score_candidates self rnd st1 cs pr of
             (st2, rest) \<Rightarrow> (st2, (score, c) # rest)))"

text \<open>\<^verbatim>\<open>sort(key, reverse=True)\<close> is stable: it is the stable sort on the negated key.\<close>

definition select_best_employee ::
  "GreedyScheduler \<Rightarrow> (nat \<Rightarrow> real) \<Rightarrow> State \<Rightarrow> nat list \<Rightarrow> nat \<Rightarrow> State \<times> (error + nat)" where
  "select_best_employee self rnd st candidates pr =
     (case candidates of
        [] \<Rightarrow> (st, Inl NoCandidatesAvailable)
      | [c] \<Rightarrow> (st, Inr c)
      | _ \<Rightarrow>
         (case score_candidates self rnd st candidates pr of
            (st1, scored_candidates) \<Rightarrow>
              (case sort_key (\<lambda>x. - fst x) scored_candidates of
                 [] \<Rightarrow> (st1, Inl IndexError)
               | x # _ \<Rightarrow> (st1, Inr (snd x)))))"

text \<open>The loop of \<^verbatim>\<open>_schedule_project\<close> over the skills that were missing on entry. Both
  the normal return of \<^verbatim>\<open>assign_employee\<close> and its \<^verbatim>\<open>ValueError\<close> go on with the next
  skill of the list.\<close>

fun schedule_project_loop ::
  "GreedyScheduler \<Rightarrow> (nat \<Rightarrow> real) \<Rightarrow> Schedule \<Rightarrow> State \<Rightarrow> nat \<Rightarrow> SkillType list
     \<Rightarrow> State \<times> (error + bool)" where
  "schedule_project_loop self rnd sched st pr [] = (st, Inr (is_fully_staffed (proj st pr)))"
| "schedule_project_loop self rnd sched st pr (skill # rest) =
     (let available = get_available_employees st sched (time_slot (proj st pr)) skill
      in if available = [] then (st, Inr False)
         else
           (case select_best_employee self rnd st available pr of
              (st1, Inl e) \<Rightarrow> (st1, Inl e)
            | (st1, Inr best_employee) \<Rightarrow>
                (case assign_employee st1 pr best_employee of
                   (st2, Some e) \<Rightarrow> schedule_project_loop self rnd sched st2 pr rest
                 | (st2, None) \<Rightarrow> schedule_project_loop self rnd sched st2 pr rest)))"

definition schedule_project ::
  "GreedyScheduler \<Rightarrow> (nat \<Rightarrow> real) \<Rightarrow> Schedule \<Rightarrow> State \<Rightarrow> nat \<Rightarrow> State \<times> (error + bool)" where
  "schedule_project self rnd sched st pr =
     schedule_project_loop self rnd sched st pr (get_missing_skills st (proj st pr))"

definition skill_value :: "SkillType \<Rightarrow> string" where
  "skill_value s =
     (case s of PRODUCER \<Rightarrow> ''Producer'' | EDITOR \<Rightarrow> ''Editor''
      | GRAPHICS_DESIGNER \<Rightarrow> ''Graphics Designer'' | COLORIST \<Rightarrow> ''Colorist''
      | AUDIO_ENGINEER \<Rightarrow> ''Audio Engineer'')"

record FailedProject =
  failed_id :: int
  failed_name :: string
  missing_skills :: "string list"

record Statistics =
  total_employees :: nat
  total_projects :: nat
  fully_staffed_projects :: nat
  total_cost :: real
  total_regular_hours :: real
  total_overtime_hours :: real
  employees_with_overtime :: nat
  average_utilization :: real
  utilization_std_dev :: real

record Optimization =
  initial_cost :: real
  final_cost :: real
  improvement :: real
  improvement_percentage :: real
  improvements_made :: nat

datatype warning = CouldNotBeFullyStaffed nat | OptimizationSkipped error

record Results =
  success :: bool
  scheduled_projects :: nat
  failed_projects :: "FailedProject list"
  warnings :: "warning list"
  statistics :: Statistics
  optimization :: "Optimization option"

definition calculate_statistics :: "State \<Rightarrow> Schedule \<Rightarrow> Statistics" where
  "calculate_statistics st sched =
     (let utilizations = map (\<lambda>e. regular_hours_worked (emp st e) + overtime_hours_worked (emp st e))
                             (employees sched);
          avg_util = sum_list utilizations / real (length utilizations);
          variance = sum_list (map (\<lambda>u. (u - avg_util)\<^sup>2) utilizations)
                       / real (length utilizations)
      in \<lparr>total_employees = length (employees sched),
          total_projects = length (projects sched),
          fully_staffed_projects =
            length (filter (\<lambda>p. is_fully_staffed (proj st p)) (projects sched)),
          total_cost = schedule_total_cost st sched,
          total_regular_hours =
            sum_list (map (\<lambda>e. regular_hours_worked (emp st e)) (employees sched)),
          total_overtime_hours =
            sum_list (map (\<lambda>e. overtime_hours_worked (emp st e)) (employees sched)),
          employees_with_overtime =
            length (filter (\<lambda>e. overtime_hours_worked (emp st e) > 0) (employees sched)),
          average_utilization = (if employees sched \<noteq> [] then avg_util else 0),
          utilization_std_dev =
            (if employees sched \<noteq> [] \<and> length utilizations > 1 then sqrt variance else 0)\<rparr>)"

text \<open>The loop of \<^verbatim>\<open>GreedyScheduler.schedule\<close> over the sorted projects, with the counter
  \<open>scheduled_projects\<close> and the list \<open>failed_projects\<close> of the results under construction.\<close>

fun schedule_loop ::
  "GreedyScheduler \<Rightarrow> (nat \<Rightarrow> real) \<Rightarrow> Schedule \<Rightarrow> State \<Rightarrow> nat list \<Rightarrow> nat \<Rightarrow> FailedProject list
     \<Rightarrow> State \<times> (error + nat \<times> FailedProject list)" where
  "schedule_loop self rnd sched st [] n failed = (st, Inr (n, failed))"
| "schedule_loop self rnd sched st (pr # rest) n failed =
     (if is_fully_staffed (proj st pr)
      then schedule_loop self rnd sched st rest (n + 1) failed
      else
        (case schedule_project self rnd sched st pr of
           (st1, Inl e) \<Rightarrow> (st1, Inl e)
         | (st1, Inr ok) \<Rightarrow>
             (if ok then schedule_loop self rnd sched st1 rest (n + 1) failed
              else schedule_loop self rnd sched st1 rest n
                     (failed @ [\<lparr>failed_id = proj_id (proj st1 pr),
                                 failed_name = proj_name (proj st1 pr),
                                 missing_skills =
                                   map skill_value (get_missing_skills st1 (proj st1 pr))\<rparr>]))))"

definition greedy_schedule ::
  "GreedyScheduler \<Rightarrow> (nat \<Rightarrow> real) \<Rightarrow> Schedule \<Rightarrow> State \<Rightarrow> State \<times> (error + Results)" where
  "greedy_schedule self rnd sched st =
     (let sorted_projects =
            sort_key (\<lambda>p. (- priority (proj st p), ts_start (time_slot (proj st p))))
                     (projects sched)
      in case schedule_loop self rnd sched st sorted_projects 0 [] of
           (st1, Inl e) \<Rightarrow> (st1, Inl e)
         | (st1, Inr (n, failed)) \<Rightarrow>
             (st1, Inr \<lparr>success = (failed = []),
                        scheduled_projects = n,
                        failed_projects = failed,
                        warnings = (if failed \<noteq> [] then [CouldNotBeFullyStaffed (length failed)]
                                    else []),
                        statistics = calculate_statistics st1 sched,
                        optimization = None\<rparr>))"

record OptimizedScheduler =
  max_iterations :: int
  initial_temperature :: real

definition attempt_improvement :: "State \<Rightarrow> Schedule \<Rightarrow> int \<Rightarrow> State \<times> bool" where
  "attempt_improvement st sched iteration = (st, False)"

text \<open>The improvement loop of \<^verbatim>\<open>OptimizedScheduler.schedule\<close>, with its two local variables
  \<open>best_cost\<close> and \<open>improvements_made\<close>.\<close>

fun improvement_loop ::
  "Schedule \<Rightarrow> State \<Rightarrow> int list \<Rightarrow> real \<Rightarrow> nat \<Rightarrow> State \<times> real \<times> nat" where
  "improvement_loop sched st [] best_cost made = (st, best_cost, made)"
| "improvement_loop sched st (iteration # rest) best_cost made =
     (case attempt_improvement st sched iteration of
        (st1, improved) \<Rightarrow>
          (let made1 = (if improved then made + 1 else made);
               current_cost = schedule_total_cost st1 sched;
               best1 = (if current_cost < best_cost then current_cost else best_cost)
           in improvement_loop sched st1 rest best1 made1))"

text \<open>The scheduler it composes is \<^verbatim>\<open>GreedyScheduler(balance_workload=True,
  minimize_overtime=True)\<close>. An exception of the greedy run is caught by the outer handler.\<close>

definition optimized_schedule ::
  "OptimizedScheduler \<Rightarrow> (nat \<Rightarrow> real) \<Rightarrow> Schedule \<Rightarrow> State \<Rightarrow> State \<times> (error + Results)" where
  "optimized_schedule self rnd sched st =
     (case greedy_schedule \<lparr>balance_workload = True, minimize_overtime = True\<rparr> rnd sched st of
        (st1, Inl e) \<Rightarrow>
          (st1, Inr \<lparr>success = True,
                     scheduled_projects =
                       length (filter (\<lambda>p. is_fully_staffed (proj st1 p)) (projects sched)),
                     failed_projects = [],
                     warnings = [OptimizationSkipped e],
                     statistics = calculate_statistics st1 sched,
                     optimization = None\<rparr>)
      | (st1, Inr results) \<Rightarrow>
          (if \<not> success results then (st1, Inr results)
           else
             (let initial = schedule_total_cost st1 sched
              in case improvement_loop sched st1
                        (map int [0 ..< nat (min (max_iterations self) 50)]) initial 0 of
                   (st2, best_cost, made) \<Rightarrow>
                     (st2, Inr (results
                        \<lparr>optimization := Some
                           \<lparr>initial_cost = initial,
                            final_cost = best_cost,
                            improvement = initial - best_cost,
                            improvement_percentage =
                              (if initial > 0 then (initial - best_cost) / initial * 100 else 0),
                            improvements_made = made\<rparr>,
                         statistics := calculate_statistics st2 sched\<rparr>)))))"

text \<open>\<^verbatim>\<open>ConflictDetector.find_employee_conflicts\<close>: the pairs \<open>(i, j)\<close>, \<open>i < j\<close>, of the
  assignments sorted by start whose slots overlap, in the order of the two loops.\<close>

fun overlapping_pairs :: "Assignment list \<Rightarrow> (Assignment \<times> Assignment) list" where
  "overlapping_pairs [] = []"
| "overlapping_pairs (a # as) =
     map (Pair a) (filter (\<lambda>b. overlaps_with (a_time_slot a) (a_time_slot b)) as)
     @ overlapping_pairs as"

definition find_employee_conflicts :: "Employee \<Rightarrow> (Assignment \<times> Assignment) list" where
  "find_employee_conflicts employee =
     overlapping_pairs (sort_key (\<lambda>a. ts_start (a_time_slot a)) (assignments employee))"

section \<open>Consistency of an employee\<close>

fun no_overlap :: "Assignment list \<Rightarrow> bool" where
  "no_overlap [] = True"
| "no_overlap (a # as) =
     ((\<forall>b \<in> set as. \<not> overlaps_with (a_time_slot a) (a_time_slot b)) \<and> no_overlap as)"

text \<open>No two assignments of the employee (at different places of its list) overlap, and none
  overlaps an unavailable slot.\<close>

definition conflict_free :: "Employee \<Rightarrow> bool" where
  "conflict_free e =
     (no_overlap (assignments e)
      \<and> (\<forall>a \<in> set (assignments e). \<forall>u \<in> set (unavailable_slots e).
            \<not> overlaps_with (a_time_slot a) u))"

section \<open>Building a schedule\<close>

text \<open>A sequence of calls of \<^verbatim>\<open>add_employee\<close> and \<^verbatim>\<open>add_project\<close> on one schedule; a call
  that raises leaves the schedule as it was.\<close>

datatype addition = AddEmployee nat | AddProject nat

fun additions :: "State \<Rightarrow> Schedule \<Rightarrow> addition list \<Rightarrow> Schedule" where
  "additions st sched [] = sched"
| "additions st sched (AddEmployee er # rest) =
     (case add_employee st sched er of
        Inl _ \<Rightarrow> additions st sched rest
      | Inr sched' \<Rightarrow> additions st sched' rest)"
| "additions st sched (AddProject pr # rest) =
     (case add_project st sched pr of
        Inl _ \<Rightarrow> additions st sched rest
      | Inr sched' \<Rightarrow> additions st sched' rest)"

definition empty_Schedule :: Schedule where
  "empty_Schedule = \<lparr>employees = [], projects = []\<rparr>"

section \<open>Sequences of commits and concrete inputs\<close>

text \<open>A sequence of calls of \<^verbatim>\<open>add_assignment\<close> on one employee; a call that raises
  leaves the employee as it was.\<close>

fun commits :: "Employee \<Rightarrow> Assignment list \<Rightarrow> Employee" where
  "commits e [] = e"
| "commits e (a # as) =
     (case add_assignment e a of Inl _ \<Rightarrow> commits e as | Inr e' \<Rightarrow> commits e' as)"

text \<open>The slot from hour \<open>a\<close> to hour \<open>b\<close> of day 0, and an assignment on it.\<close>

definition slot_of_hours :: "int \<Rightarrow> int \<Rightarrow> TimeSlot" where
  "slot_of_hours a b = \<lparr>ts_start = a * us_per_hour, ts_end = b * us_per_hour\<rparr>"

definition shift :: "int \<Rightarrow> int \<Rightarrow> Assignment" where
  "shift a b = \<lparr>a_employee = 0, a_project = 0, a_time_slot = slot_of_hours a b\<rparr>"

definition fresh_employee :: Employee where
  "fresh_employee = new_Employee 1 ''Asha'' {EDITOR}"

definition four_skill_project :: Project where
  "four_skill_project =
     \<lparr>proj_id = 1, proj_name = ''Promo'', time_slot = slot_of_hours 9 13,
      required_skills = [PRODUCER, EDITOR, GRAPHICS_DESIGNER, COLORIST],
      assigned_employees = [], status = PENDING, priority = 5, is_fixed = True\<rparr>"

definition duplicate_skill_project :: Project where
  "duplicate_skill_project =
     four_skill_project\<lparr>required_skills :=
       [PRODUCER, EDITOR, GRAPHICS_DESIGNER, COLORIST, EDITOR]\<rparr>"

definition five_skill_project :: Project where
  "five_skill_project =
     four_skill_project\<lparr>required_skills :=
       [PRODUCER, EDITOR, GRAPHICS_DESIGNER, COLORIST, AUDIO_ENGINEER]\<rparr>"

text \<open>A store holding the listed employees at the references 0, 1, ..., and one project,
  \<open>five_skill_project\<close>, not yet staffed; no value of the generator has been drawn.\<close>

definition store_of :: "'a \<Rightarrow> 'a list \<Rightarrow> nat \<Rightarrow> 'a" where
  "store_of d xs r = (if r < length xs then xs ! r else d)"

definition crew :: "Employee list \<Rightarrow> State" where
  "crew es =
     \<lparr>emp = store_of (new_Employee 0 [] {}) es, proj = (\<lambda>_. five_skill_project), rng_pos = 0\<rparr>"

definition roster :: "nat list \<Rightarrow> Schedule" where
  "roster rs = \<lparr>employees = rs, projects = [0]\<rparr>"

definition default_greedy :: GreedyScheduler where
  "default_greedy = \<lparr>balance_workload = True, minimize_overtime = True\<rparr>"

definition no_noise :: "nat \<Rightarrow> real" where
  "no_noise k = 0"

definition some_noise :: "nat \<Rightarrow> real" where
  "some_noise k = (if k = 1 \<or> k = 2 then 1 / 4 else 1 / 2)"

text \<open>Four employees holding the first four required skills, one each.\<close>

definition uncovered_last :: State where
  "uncovered_last =
     crew [new_Employee 1 ''Ana'' {PRODUCER}, new_Employee 2 ''Ben'' {EDITOR},
           new_Employee 3 ''Cleo'' {GRAPHICS_DESIGNER}, new_Employee 4 ''Dev'' {COLORIST}]"

text \<open>Four employees holding the last four required skills, one each.\<close>

definition uncovered_first :: State where
  "uncovered_first =
     crew [new_Employee 1 ''Ana'' {EDITOR}, new_Employee 2 ''Ben'' {GRAPHICS_DESIGNER},
           new_Employee 3 ''Cleo'' {COLORIST}, new_Employee 4 ''Dev'' {AUDIO_ENGINEER}]"

text \<open>The first employee covers two required skills, so that the second required skill is
  no longer missing when its turn comes.\<close>

definition stale_skill :: State where
  "stale_skill =
     crew [new_Employee 1 ''Ana'' {PRODUCER, EDITOR}, new_Employee 2 ''Ben'' {EDITOR},
           new_Employee 3 ''Cleo'' {EDITOR, COLORIST}]"

definition two_producers :: State where
  "two_producers = crew [new_Employee 1 ''Ana'' {PRODUCER}, new_Employee 2 ''Ben'' {PRODUCER}]"

text \<open>One employee who is away from 08:00 to 10:00, while the project runs 09:00 to 13:00.\<close>

definition away_crew :: State where
  "away_crew =
     crew [(new_Employee 1 ''Ana'' {PRODUCER})\<lparr>unavailable_slots := [slot_of_hours 8 10]\<rparr>]"

text \<open>The states of the run on \<open>stale_skill\<close>: after the first commit, after the candidates
  for the second skill have been scored, and at the end of \<^verbatim>\<open>_schedule_project\<close>.\<close>

definition stale_after_first :: State where
  "stale_after_first = fst (assign_employee stale_skill 0 0)"

definition stale_after_scoring :: State where
  "stale_after_scoring =
     fst (select_best_employee default_greedy no_noise stale_after_first [1, 2] 0)"

definition stale_final :: State where
  "stale_final = fst (schedule_project default_greedy no_noise (roster [0, 1, 2]) stale_skill 0)"

section \<open>Runs that are given the same values by the generator\<close>

text \<open>Two states hold the same employees and projects, and the generator yields, from the
  position of the first state on, the values that it yields from the position of the second
  state on.\<close>

definition same_draws :: "(nat \<Rightarrow> real) \<Rightarrow> State \<Rightarrow> (nat \<Rightarrow> real) \<Rightarrow> State \<Rightarrow> bool" where
  "same_draws rnd1 st1 rnd2 st2 =
     (emp st1 = emp st2 \<and> proj st1 = proj st2
      \<and> (\<forall>k. rnd1 (rng_pos st1 + k) = rnd2 (rng_pos st2 + k)))"

text \<open>A generator that yields the values of \<open>some_noise\<close> two draws later.\<close>

definition delayed_noise :: "nat \<Rightarrow> real" where
  "delayed_noise k = some_noise (k - 2)"

section \<open>Inputs of the binary64 accounting\<close>










text \<open>Five employees holding the five required skills, one each.\<close>

definition full_crew :: State where
  "full_crew =
     crew [new_Employee 1 ''Ana'' {PRODUCER}, new_Employee 2 ''Ben'' {EDITOR},
           new_Employee 3 ''Cleo'' {GRAPHICS_DESIGNER}, new_Employee 4 ''Dev'' {COLORIST},
           new_Employee 5 ''Eli'' {AUDIO_ENGINEER}]"

section \<open>Hours accounting\<close>

lemmas employee_eval =
  fresh_employee_def new_Employee_def shift_def slot_of_hours_def
  Employee_MAX_REGULAR_HOURS_PER_DAY_def Employee_REGULAR_RATE_def Employee_OVERTIME_RATE_def
  us_per_hour_def us_per_day_def date_of_def duration_hours_def overlaps_with_def
  is_available_def daily_hours_on_def hours_split_def update_hours_def add_assignment_def

text \<open>
  Claim C1. The split recorded at a commit is to be computed from the hours of the assignments
  committed before it on the same date, so that 5h then 4h on one day records (5, 0) and then
  (3, 1), for totals regular = 8 and overtime = 1. \<^verbatim>\<open>add_assignment\<close> appends the new
  assignment before \<^verbatim>\<open>_update_hours\<close> sums the day, so the day's sum already holds the new
  hours: a fresh employee committing 5h is left with regular = 3 and overtime = 2, and the 4h
  commit after it adds (0, 4), for totals regular = 3 and overtime = 6.
\<close>

theorem add_assignment_5h_then_4h:
  "regular_hours_worked (commits fresh_employee [shift 9 14]) = 3
   \<and> overtime_hours_worked (commits fresh_employee [shift 9 14]) = 2
   \<and> regular_hours_worked (commits fresh_employee [shift 9 14, shift 14 18]) = 3
   \<and> overtime_hours_worked (commits fresh_employee [shift 9 14, shift 14 18]) = 6"
  by (simp add: employee_eval)

text \<open>
  Claim C2. The totals of a day are to be the same for every order of commit: 4h then 5h is to
  give regular = 8 and overtime = 1, as 5h then 4h. On the code 4h then 5h gives regular = 4 and
  overtime = 5, while 5h then 4h gives regular = 3 and overtime = 6: neither is (8, 1) and the
  two orders disagree.
\<close>

theorem same_day_totals_depend_on_order:
  "regular_hours_worked (commits fresh_employee [shift 9 13, shift 13 18]) = 4
   \<and> overtime_hours_worked (commits fresh_employee [shift 9 13, shift 13 18]) = 5
   \<and> overtime_hours_worked (commits fresh_employee [shift 9 14, shift 14 18])
       \<noteq> overtime_hours_worked (commits fresh_employee [shift 9 13, shift 13 18])"
  by (simp add: employee_eval)




subsection \<open>Rounding\<close>


























subsection \<open>Quarter hours are exact\<close>



























section \<open>Project construction\<close>

lemma card_five_iff_distinct:
  "length xs = 5 \<Longrightarrow> (card (set xs) = 5) = distinct xs"
  using card_distinct[of xs] distinct_card[of xs] by auto

text \<open>
  Claim C8. Constructing a project whose \<open>required_skills\<close> is not a list of exactly five
  different skills raises at construction: the count error when the list has not five
  entries, the duplicate error when it has five with a repetition. The result is then the
  exception and no project; five different skills give the project.
\<close>

theorem Project_needs_five_distinct_skills:
  "(length (required_skills p) \<noteq> 5 \<longrightarrow>
      Project_post_init p = Inl (NotExactlyFiveSkills (length (required_skills p))))
   \<and> (length (required_skills p) = 5 \<and> \<not> distinct (required_skills p) \<longrightarrow>
      Project_post_init p = Inl SkillsNotAllDifferent)
   \<and> (length (required_skills p) = 5 \<and> distinct (required_skills p) \<longrightarrow>
      Project_post_init p = Inr p)"
  by (simp add: Project_post_init_def card_five_iff_distinct)

theorem Project_needs_five_distinct_skills_witness:
  "Project_post_init four_skill_project = Inl (NotExactlyFiveSkills 4)
   \<and> Project_post_init duplicate_skill_project = Inl SkillsNotAllDifferent
   \<and> Project_post_init five_skill_project = Inr five_skill_project"
  using Project_needs_five_distinct_skills[of four_skill_project]
    Project_needs_five_distinct_skills[of duplicate_skill_project]
    Project_needs_five_distinct_skills[of five_skill_project]
  by (simp add: four_skill_project_def duplicate_skill_project_def five_skill_project_def)

section \<open>The scheduling run keeps every employee consistent\<close>

lemma overlaps_with_sym:
  "overlaps_with a b = overlaps_with b a"
  by (auto simp: overlaps_with_def)

lemma no_overlap_snoc:
  "no_overlap (as @ [a]) =
     (no_overlap as \<and> (\<forall>b \<in> set as. \<not> overlaps_with (a_time_slot a) (a_time_slot b)))"
  by (induction as) (auto simp: overlaps_with_sym)

lemma update_hours_fields:
  "assignments (update_hours e ts) = assignments e"
  "unavailable_slots (update_hours e ts) = unavailable_slots e"
  by (simp_all add: update_hours_def split: prod.splits)

lemma add_assignment_conflict_free:
  assumes "conflict_free e" and "add_assignment e a = Inr e'"
  shows "conflict_free e'"
proof -
  from assms(2) have av: "is_available e (a_time_slot a)"
    and e': "e' = update_hours (e\<lparr>assignments := assignments e @ [a]\<rparr>) (a_time_slot a)"
    by (auto simp: add_assignment_def split: if_splits)
  from av have u: "\<forall>u \<in> set (unavailable_slots e). \<not> overlaps_with (a_time_slot a) u"
    and b: "\<forall>b \<in> set (assignments e). \<not> overlaps_with (a_time_slot a) (a_time_slot b)"
    by (auto simp: is_available_def split: if_splits)
  from assms(1) u b show ?thesis
    by (auto simp: conflict_free_def e' update_hours_fields no_overlap_snoc)
qed

lemma assign_employee_emp:
  assumes step: "\<And>e a e'. P e \<Longrightarrow> add_assignment e a = Inr e' \<Longrightarrow> P e'"
    and "P (emp st r)"
  shows "P (emp (fst (assign_employee st pr er)) r)"
  using assms(2) step[of "emp st er"]
  by (auto simp: assign_employee_def Let_def split: sum.splits)

lemma calculate_employee_score_stores:
  "emp (fst (calculate_employee_score self rnd st c pr)) = emp st"
  "proj (fst (calculate_employee_score self rnd st c pr)) = proj st"
  by (simp_all add: calculate_employee_score_def Let_def)

lemma score_candidates_stores:
  "emp (fst (score_candidates self rnd st cs pr)) = emp st
   \<and> proj (fst (score_candidates self rnd st cs pr)) = proj st"
proof (induction cs arbitrary: st)
  case Nil
  then show ?case by simp
next
  case (Cons c cs)
  obtain st1 sc where c: "calculate_employee_score self rnd st c pr = (st1, sc)"
    by (cases "calculate_employee_score self rnd st c pr")
  from calculate_employee_score_stores[of self rnd st c pr] c
  have "emp st1 = emp st" "proj st1 = proj st" by simp_all
  moreover obtain st2 rest where "score_candidates self rnd st1 cs pr = (st2, rest)"
    by (cases "score_candidates self rnd st1 cs pr")
  ultimately show ?case using Cons.IH[of st1] c by simp
qed

lemma select_best_employee_stores:
  "emp (fst (select_best_employee self rnd st cs pr)) = emp st
   \<and> proj (fst (select_best_employee self rnd st cs pr)) = proj st"
  using score_candidates_stores[of self rnd st cs pr]
  by (auto simp: select_best_employee_def split: list.splits prod.splits)

lemma schedule_project_loop_emp:
  assumes step: "\<And>e a e'. P e \<Longrightarrow> add_assignment e a = Inr e' \<Longrightarrow> P e'"
  shows "P (emp st r) \<Longrightarrow> P (emp (fst (schedule_project_loop self rnd sched st pr ss)) r)"
proof (induction ss arbitrary: st)
  case Nil
  then show ?case by simp
next
  case (Cons s ss)
  let ?av = "get_available_employees st sched (time_slot (proj st pr)) s"
  show ?case
  proof (cases "?av = []")
    case True
    with Cons.prems show ?thesis by simp
  next
    case False
    obtain st1 res where sel: "select_best_employee self rnd st ?av pr = (st1, res)"
      by (cases "select_best_employee self rnd st ?av pr")
    with select_best_employee_stores[of self rnd st ?av pr] have st1: "emp st1 = emp st"
      by simp
    show ?thesis
    proof (cases res)
      case (Inl e)
      with False sel st1 Cons.prems show ?thesis by simp
    next
      case (Inr best)
      obtain st2 r2 where asg: "assign_employee st1 pr best = (st2, r2)"
        by (cases "assign_employee st1 pr best")
      have "P (emp st1 r)" using Cons.prems st1 by simp
      from assign_employee_emp[where P = P and st = st1 and r = r and pr = pr and er = best,
          OF step this] asg
      have "P (emp st2 r)" by simp
      from Cons.IH[OF this] False sel Inr asg show ?thesis
        by (simp split: option.splits)
    qed
  qed
qed

lemma schedule_loop_emp:
  assumes step: "\<And>e a e'. P e \<Longrightarrow> add_assignment e a = Inr e' \<Longrightarrow> P e'"
  shows "P (emp st r) \<Longrightarrow> P (emp (fst (schedule_loop self rnd sched st ps n failed)) r)"
proof (induction ps arbitrary: st n failed)
  case Nil
  then show ?case by simp
next
  case (Cons p ps)
  show ?case
  proof (cases "is_fully_staffed (proj st p)")
    case True
    with Cons show ?thesis by simp
  next
    case False
    obtain st1 res where sp: "schedule_project self rnd sched st p = (st1, res)"
      by (cases "schedule_project self rnd sched st p")
    from schedule_project_loop_emp[where P = P and st = st and r = r and self = self
        and rnd = rnd and sched = sched and pr = p
        and ss = "get_missing_skills st (proj st p)", OF step Cons.prems] sp
    have P1: "P (emp st1 r)" by (simp add: schedule_project_def)
    show ?thesis
    proof (cases res)
      case (Inl e)
      with False sp P1 show ?thesis by simp
    next
      case (Inr ok)
      with False sp Cons.IH[OF P1] show ?thesis by simp
    qed
  qed
qed

lemma greedy_schedule_emp:
  assumes step: "\<And>e a e'. P e \<Longrightarrow> add_assignment e a = Inr e' \<Longrightarrow> P e'"
    and "P (emp st r)"
  shows "P (emp (fst (greedy_schedule self rnd sched st)) r)"
proof -
  let ?ps = "sort_key (\<lambda>p. (- priority (proj st p), ts_start (time_slot (proj st p))))
               (projects sched)"
  have "P (emp (fst (schedule_loop self rnd sched st ?ps 0 [])) r)"
    by (rule schedule_loop_emp[where P = P, OF step assms(2)])
  then show ?thesis
    by (auto simp: greedy_schedule_def Let_def split: prod.splits sum.splits)
qed

lemma overlapping_pairs_empty:
  "(overlapping_pairs as = []) = no_overlap as"
  by (induction as) (auto simp: filter_empty_conv)

lemma no_overlap_insort_key:
  "no_overlap (insort_key f a as) =
     ((\<forall>b \<in> set as. \<not> overlaps_with (a_time_slot a) (a_time_slot b)) \<and> no_overlap as)"
  by (induction as) (auto simp: set_insort_key overlaps_with_sym)

lemma no_overlap_sort_key:
  "no_overlap (sort_key f as) = no_overlap as"
  by (induction as) (simp_all add: no_overlap_insort_key)

lemma conflict_free_no_conflicts:
  "conflict_free e \<Longrightarrow> find_employee_conflicts e = []"
  by (simp add: find_employee_conflicts_def overlapping_pairs_empty no_overlap_sort_key
      conflict_free_def)

section \<open>The run returns, and the optimized strategy adds nothing\<close>

lemma improvement_loop_result:
  "improvement_loop sched st its best made = (st, min best (if its = [] then best else schedule_total_cost st sched), made)"
  by (induction its arbitrary: best made) (auto simp: attempt_improvement_def Let_def min_def)

lemma improvement_loop_state:
  "fst (improvement_loop sched st its best made) = st"
  by (simp add: improvement_loop_result)

lemma score_candidates_length:
  "length (snd (score_candidates self rnd st cs pr)) = length cs"
proof (induction cs arbitrary: st)
  case Nil
  then show ?case by simp
next
  case (Cons c cs)
  obtain st1 sc where c: "calculate_employee_score self rnd st c pr = (st1, sc)"
    by (cases "calculate_employee_score self rnd st c pr")
  obtain st2 rest where r: "score_candidates self rnd st1 cs pr = (st2, rest)"
    by (cases "score_candidates self rnd st1 cs pr")
  from Cons.IH[of st1] c r show ?case by simp
qed

lemma select_best_employee_returns:
  assumes "cs \<noteq> []"
  shows "\<exists>best. snd (select_best_employee self rnd st cs pr) = Inr best"
proof -
  obtain st1 sc where sc: "score_candidates self rnd st cs pr = (st1, sc)"
    by (cases "score_candidates self rnd st cs pr")
  with score_candidates_length[of self rnd st cs pr] have "length sc = length cs" by simp
  with assms have "sort_key (\<lambda>x. - fst x) sc \<noteq> []"
    by (metis length_0_conv length_sort)
  with assms sc show ?thesis
    by (auto simp: select_best_employee_def split: list.splits)
qed

lemma schedule_project_loop_returns:
  "\<exists>ok. snd (schedule_project_loop self rnd sched st pr ss) = Inr ok"
proof (induction ss arbitrary: st)
  case Nil
  then show ?case by simp
next
  case (Cons s ss)
  let ?av = "get_available_employees st sched (time_slot (proj st pr)) s"
  show ?case
  proof (cases "?av = []")
    case True
    then show ?thesis by auto
  next
    case False
    from select_best_employee_returns[OF False, of self rnd st pr]
    obtain st1 best where sel: "select_best_employee self rnd st ?av pr = (st1, Inr best)"
      by (cases "select_best_employee self rnd st ?av pr") auto
    obtain st2 r2 where asg: "assign_employee st1 pr best = (st2, r2)"
      by (cases "assign_employee st1 pr best")
    from Cons.IH[of st2] False sel asg show ?thesis
      by (simp split: option.splits)
  qed
qed

lemma schedule_loop_returns:
  "\<exists>n' fs. snd (schedule_loop self rnd sched st ps n failed) = Inr (n', failed @ fs)
      \<and> n' + length fs = n + length ps"
proof (induction ps arbitrary: st n failed)
  case Nil
  then show ?case by simp
next
  case (Cons p ps)
  show ?case
  proof (cases "is_fully_staffed (proj st p)")
    case True
    with Cons[of st "n + 1" failed] show ?thesis by auto
  next
    case False
    from schedule_project_loop_returns[of self rnd sched st p "get_missing_skills st (proj st p)"]
    obtain st1 ok where sp: "schedule_project self rnd sched st p = (st1, Inr ok)"
      by (cases "schedule_project self rnd sched st p") (auto simp: schedule_project_def)
    show ?thesis
    proof (cases ok)
      case True
      with False sp Cons[of st1 "n + 1" failed] show ?thesis by auto
    next
      case nok: False
      let ?entry = "\<lparr>failed_id = proj_id (proj st1 p), failed_name = proj_name (proj st1 p),
                      missing_skills = map skill_value (get_missing_skills st1 (proj st1 p))\<rparr>"
      from Cons[of st1 n "failed @ [?entry]"]
      obtain n' fs where "snd (schedule_loop self rnd sched st1 ps n (failed @ [?entry]))
          = Inr (n', (failed @ [?entry]) @ fs)" and "n' + length fs = n + length ps"
        by blast
      with False sp nok show ?thesis
        by (intro exI[of _ n'] exI[of _ "?entry # fs"]) simp
    qed
  qed
qed

lemma greedy_schedule_returns:
  "\<exists>res. snd (greedy_schedule self rnd sched st) = Inr res
     \<and> scheduled_projects res + length (failed_projects res) = length (projects sched)"
proof -
  let ?ps = "sort_key (\<lambda>p. (- priority (proj st p), ts_start (time_slot (proj st p))))
               (projects sched)"
  from schedule_loop_returns[of self rnd sched st ?ps 0 "[]"]
  obtain n' fs where "snd (schedule_loop self rnd sched st ?ps 0 []) = Inr (n', fs)"
    and "n' + length fs = length (projects sched)" by auto
  then show ?thesis
    by (cases "schedule_loop self rnd sched st ?ps 0 []")
       (auto simp: greedy_schedule_def Let_def)
qed

lemma optimized_schedule_state:
  "fst (optimized_schedule opt rnd sched st)
     = fst (greedy_schedule \<lparr>balance_workload = True, minimize_overtime = True\<rparr> rnd sched st)"
  using improvement_loop_state
  by (auto simp: optimized_schedule_def Let_def improvement_loop_result split: prod.splits sum.splits)

lemma add_assignment_rejects:
  "\<not> is_available e (a_time_slot a) \<Longrightarrow>
     add_assignment e a = Inl (EmployeeNotAvailable (emp_name e) (a_time_slot a))"
  by (simp add: add_assignment_def)

lemma assign_employee_rejects:
  "\<not> is_available (emp st er) (time_slot (proj st pr)) \<Longrightarrow>
     assign_employee st pr er
       = (st, Some (CannotAssign (emp_name (emp st er)) (proj_name (proj st pr))))"
  by (simp add: assign_employee_def can_assign_employee_def)

text \<open>
  Claim C4. An employee whose assignments do not overlap each other nor an unavailable slot
  before a scheduling run (greedy or optimized) is so after it, and the conflict detector
  then returns no pair for it. A commit on an employee who is not available raises before
  anything is changed: \<^verbatim>\<open>add_assignment\<close> returns the exception, and
  \<^verbatim>\<open>assign_employee\<close> returns the exception beside the state it was given.
\<close>

theorem scheduling_keeps_employees_conflict_free:
  assumes "conflict_free (emp st r)"
  shows "conflict_free (emp (fst (greedy_schedule self rnd sched st)) r)
       \<and> find_employee_conflicts (emp (fst (greedy_schedule self rnd sched st)) r) = []
       \<and> conflict_free (emp (fst (optimized_schedule opt rnd sched st)) r)
       \<and> find_employee_conflicts (emp (fst (optimized_schedule opt rnd sched st)) r) = []
       \<and> (\<not> is_available e (a_time_slot a) \<longrightarrow>
            add_assignment e a = Inl (EmployeeNotAvailable (emp_name e) (a_time_slot a)))
       \<and> (\<not> is_available (emp st er) (time_slot (proj st pr)) \<longrightarrow>
            assign_employee st pr er
              = (st, Some (CannotAssign (emp_name (emp st er)) (proj_name (proj st pr)))))"
proof -
  have g: "conflict_free (emp (fst (greedy_schedule self' rnd sched st)) r)" for self'
    by (rule greedy_schedule_emp[where P = conflict_free, OF _ assms])
       (rule add_assignment_conflict_free)
  then have o: "conflict_free (emp (fst (optimized_schedule opt rnd sched st)) r)"
    by (simp add: optimized_schedule_state)
  from g[of self] o show ?thesis
    by (simp add: conflict_free_no_conflicts add_assignment_rejects assign_employee_rejects)
qed

lemmas run_eval =
  crew_def roster_def store_of_def default_greedy_def no_noise_def some_noise_def
  five_skill_project_def four_skill_project_def new_Employee_def slot_of_hours_def
  Employee_MAX_REGULAR_HOURS_PER_DAY_def Employee_REGULAR_RATE_def Employee_OVERTIME_RATE_def
  us_per_hour_def us_per_day_def date_of_def duration_hours_def overlaps_with_def
  is_available_def daily_hours_on_def hours_split_def update_hours_def add_assignment_def
  has_skill_def is_fully_staffed_def get_missing_skills_def can_assign_employee_def
  assign_employee_def get_available_employees_def calculate_employee_score_def
  select_best_employee_def schedule_project_def skill_value_def Let_def

theorem scheduling_keeps_employees_conflict_free_witness:
  "conflict_free (emp away_crew 0)
   \<and> \<not> is_available (emp away_crew 0) (a_time_slot (shift 9 13))
   \<and> \<not> is_available (emp away_crew 0) (time_slot (proj away_crew 0))
   \<and> conflict_free (emp (fst (greedy_schedule default_greedy no_noise (roster [0]) away_crew)) 0)
   \<and> find_employee_conflicts
        (emp (fst (greedy_schedule default_greedy no_noise (roster [0]) away_crew)) 0) = []
   \<and> add_assignment (emp away_crew 0) (shift 9 13)
        = Inl (EmployeeNotAvailable ''Ana'' (slot_of_hours 9 13))
   \<and> assign_employee away_crew 0 0 = (away_crew, Some (CannotAssign ''Ana'' ''Promo''))"
proof -
  have h: "conflict_free (emp away_crew 0)"
    by (simp add: conflict_free_def away_crew_def run_eval)
  have u: "\<not> is_available (emp away_crew 0) (a_time_slot (shift 9 13))"
    "\<not> is_available (emp away_crew 0) (time_slot (proj away_crew 0))"
    by (simp_all add: away_crew_def shift_def run_eval)
  have n: "emp_name (emp away_crew 0) = ''Ana''" "proj_name (proj away_crew 0) = ''Promo''"
    "a_time_slot (shift 9 13) = slot_of_hours 9 13"
    by (simp_all add: away_crew_def shift_def crew_def store_of_def new_Employee_def
        five_skill_project_def four_skill_project_def)
  from scheduling_keeps_employees_conflict_free[OF h, of default_greedy no_noise "roster [0]"
      _ "emp away_crew 0" "shift 9 13" 0 0] h u n
  show ?thesis by simp
qed

subsection \<open>Ids and the optimized strategy\<close>

lemmas greedy_eval = greedy_schedule_def calculate_statistics_def schedule_total_cost_def
  emp_total_cost_def

lemma optimized_schedule_unfold:
  assumes "greedy_schedule \<lparr>balance_workload = True, minimize_overtime = True\<rparr> rnd sched st
             = (a, x)"
  shows "fst (optimized_schedule opt rnd sched st) = a"
    and "snd (optimized_schedule opt rnd sched st) =
      (case x of
         Inl e \<Rightarrow>
           Inr \<lparr>success = True,
                scheduled_projects =
                  length (filter (\<lambda>p. is_fully_staffed (proj a p)) (projects sched)),
                failed_projects = [],
                warnings = [OptimizationSkipped e],
                statistics = calculate_statistics a sched,
                optimization = None\<rparr>
       | Inr results \<Rightarrow>
           (if \<not> success results then Inr results
            else Inr (results
                   \<lparr>optimization := Some
                      \<lparr>initial_cost = schedule_total_cost a sched,
                       final_cost = schedule_total_cost a sched,
                       improvement = 0,
                       improvement_percentage = 0,
                       improvements_made = 0\<rparr>,
                    statistics := calculate_statistics a sched\<rparr>)))"
  using assms
  by (auto simp: optimized_schedule_def Let_def improvement_loop_result split: sum.splits)

lemma add_assignment_emp_id: "add_assignment e a = Inr e' \<Longrightarrow> emp_id e' = emp_id e"
  by (auto simp: add_assignment_def update_hours_def split: if_splits prod.splits)

lemma greedy_schedule_emp_id:
  "emp_id (emp (fst (greedy_schedule self rnd sched st)) r) = emp_id (emp st r)"
proof -
  have "(\<lambda>e. emp_id e = emp_id (emp st r)) (emp (fst (greedy_schedule self rnd sched st)) r)"
    by (rule greedy_schedule_emp[where P = "\<lambda>e. emp_id e = emp_id (emp st r)"])
       (simp_all add: add_assignment_emp_id)
  then show ?thesis by simp
qed

lemma score_candidates_refs:
  "map snd (snd (score_candidates self rnd st cs pr)) = cs"
proof (induction cs arbitrary: st)
  case Nil
  then show ?case by simp
next
  case (Cons c cs)
  obtain st1 sc where c: "calculate_employee_score self rnd st c pr = (st1, sc)"
    by (cases "calculate_employee_score self rnd st c pr")
  obtain st2 rest where r: "score_candidates self rnd st1 cs pr = (st2, rest)"
    by (cases "score_candidates self rnd st1 cs pr")
  from Cons.IH[of st1] c r show ?case by simp
qed

lemma select_best_employee_member:
  assumes "snd (select_best_employee self rnd st cs pr) = Inr b"
  shows "b \<in> set cs"
proof -
  obtain st1 sc where sc: "score_candidates self rnd st cs pr = (st1, sc)"
    by (cases "score_candidates self rnd st cs pr")
  with score_candidates_refs[of self rnd st cs pr] have m: "map snd sc = cs" by simp
  show ?thesis
  proof (cases "sort_key (\<lambda>x. - fst x) sc")
    case Nil
    with assms sc show ?thesis
      by (auto simp: select_best_employee_def split: list.splits)
  next
    case (Cons x xs)
    then have "x \<in> set (sort_key (\<lambda>x. - fst x) sc)" by simp
    then have "x \<in> set sc" by simp
    then have "snd x \<in> set cs" using m by force
    with assms sc Cons show ?thesis
      by (auto simp: select_best_employee_def split: list.splits)
  qed
qed

lemma assign_employee_assigned:
  "set (assigned_employees (proj (fst (assign_employee st pr er)) p))
     \<subseteq> set (assigned_employees (proj st p)) \<union> {er}"
  by (auto simp: assign_employee_def Let_def split: sum.splits if_splits)

lemma schedule_project_loop_assigned:
  "set (assigned_employees (proj (fst (schedule_project_loop self rnd sched st pr ss)) p))
     \<subseteq> set (assigned_employees (proj st p)) \<union> set (employees sched)"
proof (induction ss arbitrary: st)
  case Nil
  then show ?case by simp
next
  case (Cons s ss)
  let ?av = "get_available_employees st sched (time_slot (proj st pr)) s"
  show ?case
  proof (cases "?av = []")
    case True
    then show ?thesis by simp
  next
    case False
    obtain st1 res where sel: "select_best_employee self rnd st ?av pr = (st1, res)"
      by (cases "select_best_employee self rnd st ?av pr")
    with select_best_employee_stores[of self rnd st ?av pr] have p1: "proj st1 = proj st"
      by simp
    show ?thesis
    proof (cases res)
      case (Inl e)
      with False sel p1 show ?thesis by simp
    next
      case (Inr best)
      with sel select_best_employee_member[of self rnd st ?av pr best]
      have "best \<in> set ?av" by simp
      then have b: "best \<in> set (employees sched)"
        by (simp add: get_available_employees_def)
      obtain st2 r2 where asg: "assign_employee st1 pr best = (st2, r2)"
        by (cases "assign_employee st1 pr best")
      with assign_employee_assigned[of st1 pr best p] p1 b
      have "set (assigned_employees (proj st2 p))
              \<subseteq> set (assigned_employees (proj st p)) \<union> set (employees sched)"
        by auto
      moreover from Cons.IH[of st2]
      have "set (assigned_employees
                   (proj (fst (schedule_project_loop self rnd sched st2 pr ss)) p))
              \<subseteq> set (assigned_employees (proj st2 p)) \<union> set (employees sched)" .
      ultimately have "set (assigned_employees
                   (proj (fst (schedule_project_loop self rnd sched st2 pr ss)) p))
              \<subseteq> set (assigned_employees (proj st p)) \<union> set (employees sched)"
        by blast
      with False sel Inr asg show ?thesis by (simp split: option.splits)
    qed
  qed
qed

lemma schedule_loop_assigned:
  "set (assigned_employees (proj (fst (schedule_loop self rnd sched st ps n failed)) p))
     \<subseteq> set (assigned_employees (proj st p)) \<union> set (employees sched)"
proof (induction ps arbitrary: st n failed)
  case Nil
  then show ?case by simp
next
  case (Cons pr ps)
  show ?case
  proof (cases "is_fully_staffed (proj st pr)")
    case True
    with Cons[of st "n + 1" failed] show ?thesis by simp
  next
    case False
    obtain st1 res where sp: "schedule_project self rnd sched st pr = (st1, res)"
      by (cases "schedule_project self rnd sched st pr")
    from schedule_project_loop_assigned[of self rnd sched st pr
        "get_missing_skills st (proj st pr)" p] sp
    have a1: "set (assigned_employees (proj st1 p))
                \<subseteq> set (assigned_employees (proj st p)) \<union> set (employees sched)"
      by (simp add: schedule_project_def)
    show ?thesis
    proof (cases res)
      case (Inl e)
      with False sp a1 show ?thesis by simp
    next
      case (Inr ok)
      have "set (assigned_employees
                   (proj (fst (schedule_loop self rnd sched st1 ps n' failed')) p))
              \<subseteq> set (assigned_employees (proj st p)) \<union> set (employees sched)"
        for n' failed'
        using Cons[of st1 n' failed'] a1 by blast
      with False sp Inr show ?thesis by simp
    qed
  qed
qed

lemma greedy_schedule_assigned:
  "set (assigned_employees (proj (fst (greedy_schedule self rnd sched st)) p))
     \<subseteq> set (assigned_employees (proj st p)) \<union> set (employees sched)"
proof -
  let ?ps = "sort_key (\<lambda>p. (- priority (proj st p), ts_start (time_slot (proj st p))))
               (projects sched)"
  have "set (assigned_employees (proj (fst (schedule_loop self rnd sched st ?ps 0 [])) p))
     \<subseteq> set (assigned_employees (proj st p)) \<union> set (employees sched)"
    by (rule schedule_loop_assigned)
  then show ?thesis
    by (cases "schedule_loop self rnd sched st ?ps 0 []")
       (auto simp: greedy_schedule_def Let_def split: sum.splits)
qed

lemma greedy_schedule_unique_ids:
  assumes "unique_ids st sched"
  shows "unique_ids (fst (greedy_schedule self rnd sched st)) sched"
proof -
  let ?st' = "fst (greedy_schedule self rnd sched st)"
  let ?A = "set (employees sched)
        \<union> (\<Union>p \<in> set (projects sched). set (assigned_employees (proj st p)))"
  let ?A' = "set (employees sched)
        \<union> (\<Union>p \<in> set (projects sched). set (assigned_employees (proj ?st' p)))"
  have sub: "?A' \<subseteq> ?A"
    using greedy_schedule_assigned[of self rnd sched st] by blast
  have ids: "(\<lambda>r. emp_id (emp ?st' r)) = (\<lambda>r. emp_id (emp st r))"
    by (rule ext) (rule greedy_schedule_emp_id)
  from assms have "inj_on (\<lambda>r. emp_id (emp st r)) ?A" by (simp add: unique_ids_def)
  with sub have "inj_on (\<lambda>r. emp_id (emp st r)) ?A'" by (rule inj_on_subset[rotated])
  then show ?thesis by (simp add: unique_ids_def ids)
qed

lemma full_greedy:
  "snd (greedy_schedule default_greedy no_noise (roster [0, 1, 2, 3, 4]) full_crew)
     = Inr \<lparr>success = True, scheduled_projects = 1, failed_projects = [], warnings = [],
            statistics = \<lparr>total_employees = 5, total_projects = 1, fully_staffed_projects = 1,
               total_cost = 20, total_regular_hours = 20, total_overtime_hours = 0,
               employees_with_overtime = 0, average_utilization = 4, utilization_std_dev = 0\<rparr>,
            optimization = None\<rparr>"
  by (simp add: full_crew_def run_eval greedy_eval)

lemma full_unique: "unique_ids full_crew (roster [0, 1, 2, 3, 4])"
  by (simp add: unique_ids_def full_crew_def run_eval)

text \<open>
  Claim C9. The improvement step returns \<open>False\<close> and leaves the schedule as it is, so on a
  schedule whose employees have pairwise different ids a run of the optimized strategy ends
  in the state in which the greedy strategy (with its default options, as the optimized one
  composes it) ends on the same input and the same values of the generator, with the same
  count of scheduled projects, the same failed projects and the same statistics; the count of
  fully staffed projects is therefore not reduced. The ids are still pairwise different at
  the end of the run.
\<close>

theorem optimized_equals_greedy:
  assumes "unique_ids st sched"
  shows "\<exists>st' g r.
      greedy_schedule \<lparr>balance_workload = True, minimize_overtime = True\<rparr> rnd sched st = (st', Inr g)
    \<and> optimized_schedule opt rnd sched st = (st', Inr r)
    \<and> scheduled_projects r = scheduled_projects g
    \<and> failed_projects r = failed_projects g
    \<and> success r = success g
    \<and> statistics r = statistics g
    \<and> unique_ids st' sched"
proof -
  let ?G = "\<lparr>balance_workload = True, minimize_overtime = True\<rparr>"
  from greedy_schedule_returns[of ?G rnd sched st]
  obtain st' g where g: "greedy_schedule ?G rnd sched st = (st', Inr g)"
    by (cases "greedy_schedule ?G rnd sched st") auto
  then have stat: "statistics g = calculate_statistics st' sched"
    by (auto simp: greedy_schedule_def Let_def split: prod.splits sum.splits)
  from greedy_schedule_unique_ids[OF assms, of ?G rnd] g
  have u: "unique_ids st' sched" by simp
  show ?thesis
    using g stat u
    by (auto simp: optimized_schedule_def Let_def improvement_loop_result)
qed

text \<open>Five employees staff the project: the greedy run succeeds, the improvement loop runs,
  and the result of the optimized run is the greedy one with the optimization record.\<close>

theorem optimized_equals_greedy_witness:
  "unique_ids full_crew (roster [0, 1, 2, 3, 4])
   \<and> snd (greedy_schedule \<lparr>balance_workload = True, minimize_overtime = True\<rparr> no_noise
            (roster [0, 1, 2, 3, 4]) full_crew)
       = Inr \<lparr>success = True, scheduled_projects = 1, failed_projects = [], warnings = [],
            statistics = \<lparr>total_employees = 5, total_projects = 1, fully_staffed_projects = 1,
               total_cost = 20, total_regular_hours = 20, total_overtime_hours = 0,
               employees_with_overtime = 0, average_utilization = 4, utilization_std_dev = 0\<rparr>,
            optimization = None\<rparr>
   \<and> snd (optimized_schedule \<lparr>max_iterations = 100, initial_temperature = 1\<rparr> no_noise
            (roster [0, 1, 2, 3, 4]) full_crew)
       = Inr \<lparr>success = True, scheduled_projects = 1, failed_projects = [], warnings = [],
            statistics = \<lparr>total_employees = 5, total_projects = 1, fully_staffed_projects = 1,
               total_cost = 20, total_regular_hours = 20, total_overtime_hours = 0,
               employees_with_overtime = 0, average_utilization = 4, utilization_std_dev = 0\<rparr>,
            optimization = Some \<lparr>initial_cost = 20, final_cost = 20, improvement = 0,
               improvement_percentage = 0, improvements_made = 0\<rparr>\<rparr>
   \<and> fst (optimized_schedule \<lparr>max_iterations = 100, initial_temperature = 1\<rparr> no_noise
            (roster [0, 1, 2, 3, 4]) full_crew)
       = fst (greedy_schedule \<lparr>balance_workload = True, minimize_overtime = True\<rparr> no_noise
            (roster [0, 1, 2, 3, 4]) full_crew)
   \<and> unique_ids
        (fst (optimized_schedule \<lparr>max_iterations = 100, initial_temperature = 1\<rparr> no_noise
            (roster [0, 1, 2, 3, 4]) full_crew))
        (roster [0, 1, 2, 3, 4])"
proof -
  let ?G = "\<lparr>balance_workload = True, minimize_overtime = True\<rparr>"
  let ?O = "\<lparr>max_iterations = 100, initial_temperature = 1\<rparr>"
  let ?R = "roster [0, 1, 2, 3, 4]"
  from optimized_equals_greedy[OF full_unique, of no_noise ?O]
  obtain st' g r where g: "greedy_schedule ?G no_noise ?R full_crew = (st', Inr g)"
    and r: "optimized_schedule ?O no_noise ?R full_crew = (st', Inr r)"
    and s: "statistics r = statistics g"
    and u: "unique_ids st' ?R"
    by blast
  from full_greedy g
  have gv: "g = \<lparr>success = True, scheduled_projects = 1, failed_projects = [], warnings = [],
            statistics = \<lparr>total_employees = 5, total_projects = 1, fully_staffed_projects = 1,
               total_cost = 20, total_regular_hours = 20, total_overtime_hours = 0,
               employees_with_overtime = 0, average_utilization = 4, utilization_std_dev = 0\<rparr>,
            optimization = None\<rparr>"
    by (simp add: default_greedy_def)
  from g have "statistics g = calculate_statistics st' ?R"
    by (auto simp: greedy_schedule_def Let_def split: prod.splits sum.splits)
  then have "total_cost (statistics g) = schedule_total_cost st' ?R"
    by (simp add: calculate_statistics_def Let_def)
  then have c: "schedule_total_cost st' ?R = 20"
    by (simp add: gv)
  from optimized_schedule_unfold(2)[OF g, of ?O] r c
  have rv: "r = g\<lparr>optimization := Some \<lparr>initial_cost = 20, final_cost = 20, improvement = 0,
               improvement_percentage = 0, improvements_made = 0\<rparr>,
             statistics := calculate_statistics st' ?R\<rparr>"
    by (simp add: gv)
  from s rv have st: "calculate_statistics st' ?R = statistics g" by simp
  show ?thesis
    using full_unique u g r rv st gv by simp
qed

section \<open>Lookup by id\<close>

lemma find_None_iff': "(find P xs = None) = (\<forall>x \<in> set xs. \<not> P x)"
  by (induction xs) auto

lemma find_Some_first:
  "find P xs = Some x \<Longrightarrow> x \<in> set xs \<and> P x"
  by (induction xs) (auto split: if_splits)

lemma find_Some_unique:
  "inj_on f (set xs) \<Longrightarrow> find (\<lambda>x. f x = i) xs = Some x \<Longrightarrow> y \<in> set xs \<Longrightarrow> f y = i \<Longrightarrow> y = x"
  using find_Some_first[of "\<lambda>x. f x = i" xs x] by (auto dest: inj_onD)

lemma additions_inj:
  "inj_on (\<lambda>r. emp_id (emp st r)) (set (employees sched)) \<Longrightarrow>
   inj_on (\<lambda>r. proj_id (proj st r)) (set (projects sched)) \<Longrightarrow>
   inj_on (\<lambda>r. emp_id (emp st r)) (set (employees (additions st sched ops)))
   \<and> inj_on (\<lambda>r. proj_id (proj st r)) (set (projects (additions st sched ops)))"
proof (induction st sched ops rule: additions.induct)
  case (1 st sched)
  then show ?case by simp
next
  case (2 st sched er rest)
  show ?case
  proof (cases "add_employee st sched er")
    case (Inl e)
    with 2 show ?thesis by simp
  next
    case (Inr sched')
    then have "employees sched' = employees sched @ [er]" "projects sched' = projects sched"
      and "\<forall>e \<in> set (employees sched). emp_id (emp st e) \<noteq> emp_id (emp st er)"
      by (auto simp: add_employee_def split: if_splits)
    with 2(3,4) have "inj_on (\<lambda>r. emp_id (emp st r)) (set (employees sched'))"
      "inj_on (\<lambda>r. proj_id (proj st r)) (set (projects sched'))"
      by (auto simp: inj_on_def)
    with 2(2)[OF Inr] Inr show ?thesis by simp
  qed
next
  case (3 st sched pr rest)
  show ?case
  proof (cases "add_project st sched pr")
    case (Inl e)
    with 3 show ?thesis by simp
  next
    case (Inr sched')
    then have "projects sched' = projects sched @ [pr]" "employees sched' = employees sched"
      and "\<forall>p \<in> set (projects sched). proj_id (proj st p) \<noteq> proj_id (proj st pr)"
      by (auto simp: add_project_def split: if_splits)
    with 3(3,4) have "inj_on (\<lambda>r. emp_id (emp st r)) (set (employees sched'))"
      "inj_on (\<lambda>r. proj_id (proj st r)) (set (projects sched'))"
      by (auto simp: inj_on_def)
    with 3(2)[OF Inr] Inr show ?thesis by simp
  qed
qed

text \<open>
  Claim C10. The two lookups by id never raise: they return \<open>None\<close> exactly when no entity of
  the schedule has the id, and otherwise an entity of the schedule with that id, which is
  the only one when the schedule was filled through \<^verbatim>\<open>add_employee\<close> and
  \<^verbatim>\<open>add_project\<close>.
\<close>

theorem lookup_by_id:
  assumes "sched = additions st empty_Schedule ops"
  shows "(get_employee_by_id st sched i = None
            \<longleftrightarrow> (\<forall>e \<in> set (employees sched). emp_id (emp st e) \<noteq> i))
       \<and> (\<forall>e. get_employee_by_id st sched i = Some e \<longrightarrow>
            e \<in> set (employees sched) \<and> emp_id (emp st e) = i
            \<and> (\<forall>e' \<in> set (employees sched). emp_id (emp st e') = i \<longrightarrow> e' = e))
       \<and> (get_project_by_id st sched i = None
            \<longleftrightarrow> (\<forall>p \<in> set (projects sched). proj_id (proj st p) \<noteq> i))
       \<and> (\<forall>p. get_project_by_id st sched i = Some p \<longrightarrow>
            p \<in> set (projects sched) \<and> proj_id (proj st p) = i
            \<and> (\<forall>p' \<in> set (projects sched). proj_id (proj st p') = i \<longrightarrow> p' = p))"
proof -
  from additions_inj[of st empty_Schedule ops] assms
  have ie: "inj_on (\<lambda>r. emp_id (emp st r)) (set (employees sched))"
    and ip: "inj_on (\<lambda>r. proj_id (proj st r)) (set (projects sched))"
    by (simp_all add: empty_Schedule_def)
  have e1: "get_employee_by_id st sched i = None
              \<longleftrightarrow> (\<forall>e \<in> set (employees sched). emp_id (emp st e) \<noteq> i)"
    by (simp add: get_employee_by_id_def find_None_iff')
  have p1: "get_project_by_id st sched i = None
              \<longleftrightarrow> (\<forall>p \<in> set (projects sched). proj_id (proj st p) \<noteq> i)"
    by (simp add: get_project_by_id_def find_None_iff')
  have e2: "\<forall>e. get_employee_by_id st sched i = Some e \<longrightarrow>
          e \<in> set (employees sched) \<and> emp_id (emp st e) = i
          \<and> (\<forall>e' \<in> set (employees sched). emp_id (emp st e') = i \<longrightarrow> e' = e)"
  proof (intro allI impI)
    fix e
    assume "get_employee_by_id st sched i = Some e"
    then have f: "find (\<lambda>e. emp_id (emp st e) = i) (employees sched) = Some e"
      by (simp add: get_employee_by_id_def)
    from find_Some_first[OF f] find_Some_unique[OF ie f]
    show "e \<in> set (employees sched) \<and> emp_id (emp st e) = i
          \<and> (\<forall>e' \<in> set (employees sched). emp_id (emp st e') = i \<longrightarrow> e' = e)"
      by blast
  qed
  have p2: "\<forall>p. get_project_by_id st sched i = Some p \<longrightarrow>
          p \<in> set (projects sched) \<and> proj_id (proj st p) = i
          \<and> (\<forall>p' \<in> set (projects sched). proj_id (proj st p') = i \<longrightarrow> p' = p)"
  proof (intro allI impI)
    fix p
    assume "get_project_by_id st sched i = Some p"
    then have f: "find (\<lambda>p. proj_id (proj st p) = i) (projects sched) = Some p"
      by (simp add: get_project_by_id_def)
    from find_Some_first[OF f] find_Some_unique[OF ip f]
    show "p \<in> set (projects sched) \<and> proj_id (proj st p) = i
          \<and> (\<forall>p' \<in> set (projects sched). proj_id (proj st p') = i \<longrightarrow> p' = p)"
      by blast
  qed
  from e1 e2 p1 p2 show ?thesis by (intro conjI)
qed

theorem lookup_by_id_witness:
  "get_employee_by_id uncovered_last
      (additions uncovered_last empty_Schedule [AddEmployee 0, AddEmployee 1, AddEmployee 0,
         AddProject 0]) 2 = Some 1
   \<and> get_employee_by_id uncovered_last
      (additions uncovered_last empty_Schedule [AddEmployee 0, AddEmployee 1, AddEmployee 0,
         AddProject 0]) 7 = None
   \<and> employees (additions uncovered_last empty_Schedule [AddEmployee 0, AddEmployee 1,
         AddEmployee 0, AddProject 0]) = [0, 1]"
proof -
  let ?s = "additions uncovered_last empty_Schedule [AddEmployee 0, AddEmployee 1,
         AddEmployee 0, AddProject 0]"
  have e: "employees ?s = [0, 1]"
    by (simp add: add_employee_def add_project_def empty_Schedule_def uncovered_last_def
        crew_def store_of_def new_Employee_def)
  have i: "emp_id (emp uncovered_last 0) = 1" "emp_id (emp uncovered_last 1) = 2"
    by (simp_all add: uncovered_last_def crew_def store_of_def new_Employee_def)
  from lookup_by_id[OF refl, of uncovered_last "[AddEmployee 0, AddEmployee 1, AddEmployee 0,
         AddProject 0]" 7] e i
  have "get_employee_by_id uncovered_last ?s 7 = None" by simp
  moreover from lookup_by_id[OF refl, of uncovered_last "[AddEmployee 0, AddEmployee 1,
         AddEmployee 0, AddProject 0]" 2] e i
  have "get_employee_by_id uncovered_last ?s 2 = Some 1"
    by (cases "get_employee_by_id uncovered_last ?s 2") auto
  ultimately show ?thesis using e by simp
qed

section \<open>One commit of the scheduler\<close>

lemma update_hours_skills:
  "skills (update_hours e ts) = skills e"
  by (simp add: update_hours_def split: prod.splits)

lemma add_assignment_skills:
  "add_assignment e a = Inr e' \<Longrightarrow> skills e' = skills e"
  by (auto simp: add_assignment_def update_hours_skills split: if_splits)

lemma add_assignment_available:
  "is_available e (a_time_slot a) \<Longrightarrow> \<exists>e'. add_assignment e a = Inr e'"
  by (simp add: add_assignment_def)

lemma assign_employee_success:
  assumes "can_assign_employee st pr er"
  shows "\<exists>e'. add_assignment (emp st er)
                \<lparr>a_employee = er, a_project = pr, a_time_slot = time_slot (proj st pr)\<rparr> = Inr e'
           \<and> assign_employee st pr er =
               (st\<lparr>emp := (emp st)(er := e'),
                   proj := (proj st)(pr := (proj st pr)
                     \<lparr>assigned_employees := assigned_employees (proj st pr) @ [er],
                      status := (if length (assigned_employees (proj st pr)) + 1 = 5
                                 then SCHEDULED else status (proj st pr))\<rparr>)\<rparr>, None)"
proof -
  from assms have av: "is_available (emp st er) (time_slot (proj st pr))"
    by (auto simp: can_assign_employee_def split: if_splits)
  let ?a = "\<lparr>a_employee = er, a_project = pr, a_time_slot = time_slot (proj st pr)\<rparr>"
  from av obtain e' where e': "add_assignment (emp st er) ?a = Inr e'"
    using add_assignment_available[of "emp st er" ?a] by auto
  with assms show ?thesis
    by (intro exI[of _ e']) (simp add: assign_employee_def Let_def is_fully_staffed_def)
qed

lemma assign_employee_failure:
  assumes "snd (assign_employee st pr er) \<noteq> None"
  shows "fst (assign_employee st pr er) = st \<and> \<not> can_assign_employee st pr er"
proof (cases "can_assign_employee st pr er")
  case True
  from assign_employee_success[OF True] obtain st' where
    "assign_employee st pr er = (st', None)" by blast
  with assms show ?thesis by simp
next
  case False
  then show ?thesis by (simp add: assign_employee_def)
qed

lemma filter_single:
  "distinct xs \<Longrightarrow> h \<in> set xs \<Longrightarrow> P h \<Longrightarrow> (\<forall>x \<in> set xs. x \<noteq> h \<longrightarrow> \<not> P x)
     \<Longrightarrow> filter P xs = [h]"
proof (induction xs)
  case Nil
  then show ?case by simp
next
  case (Cons x xs)
  show ?case
  proof (cases "x = h")
    case True
    from Cons.prems(1) True have "h \<notin> set xs" by simp
    with Cons.prems(4) have "\<forall>y \<in> set xs. \<not> P y" by auto
    then have "filter P xs = []" by (simp add: filter_empty_conv)
    with True Cons.prems(3) show ?thesis by simp
  next
    case False
    from Cons.prems(4) False have np: "\<not> P x" by simp
    from Cons.prems(1) have d: "distinct xs" by simp
    from Cons.prems(2) False have m: "h \<in> set xs" by auto
    from Cons.prems(4) have u: "\<forall>y \<in> set xs. y \<noteq> h \<longrightarrow> \<not> P y" by simp
    from Cons.IH[OF d m Cons.prems(3) u] np show ?thesis by simp
  qed
qed

section \<open>A project that cannot be staffed\<close>

text \<open>The loop of \<^verbatim>\<open>_schedule_project\<close> on skills \<open>map fst zs\<close>, each held by exactly one
  employee, who holds nothing else and is available, followed by a skill \<open>u\<close> that nobody
  holds: the holders are committed in order and the loop returns \<open>False\<close> at \<open>u\<close>.\<close>

lemma loop_single_holders:
  assumes "distinct (employees sched)"
    and "\<forall>(s, h) \<in> set zs. h \<in> set (employees sched) \<and> skills (emp st h) = {s}
          \<and> is_available (emp st h) (time_slot (proj st pr))
          \<and> (\<forall>r \<in> set (employees sched). s \<in> skills (emp st r) \<longrightarrow> r = h)"
    and "distinct (map fst zs)"
    and "\<forall>r \<in> set (employees sched). u \<notin> skills (emp st r)"
    and "set (map fst zs) \<subseteq> set (required_skills (proj st pr))"
    and "\<forall>e \<in> set (assigned_employees (proj st pr)). skills (emp st e) \<inter> set (map fst zs) = {}"
    and "length (assigned_employees (proj st pr)) + length zs < 5"
  shows "\<exists>st'. schedule_project_loop self rnd sched st pr (map fst zs @ u # post) = (st', Inr False)
      \<and> proj st' = (proj st)(pr := (proj st pr)
            \<lparr>assigned_employees := assigned_employees (proj st pr) @ map snd zs\<rparr>)
      \<and> (\<forall>(s, h) \<in> set zs. add_assignment (emp st h)
            \<lparr>a_employee = h, a_project = pr, a_time_slot = time_slot (proj st pr)\<rparr>
              = Inr (emp st' h))
      \<and> (\<forall>r. r \<notin> snd ` set zs \<longrightarrow> emp st' r = emp st r)
      \<and> rng_pos st' = rng_pos st"
  using assms
proof (induction zs arbitrary: st)
  case Nil
  from Nil.prems(4)
  have "get_available_employees st sched (time_slot (proj st pr)) u = []"
    by (simp add: get_available_employees_def has_skill_def filter_empty_conv)
  then have "schedule_project_loop self rnd sched st pr (u # post) = (st, Inr False)"
    by simp
  then show ?case by (intro exI[of _ st]) simp
next
  case (Cons z zs)
  obtain s h where z: "z = (s, h)" by (cases z)
  define T where "T = time_slot (proj st pr)"
  define A where "A = assigned_employees (proj st pr)"
  have hm: "(s, h) \<in> set (z # zs)" using z by simp
  with Cons.prems(2) have h0: "h \<in> set (employees sched) \<and> skills (emp st h) = {s}
          \<and> is_available (emp st h) (time_slot (proj st pr))
          \<and> (\<forall>r \<in> set (employees sched). s \<in> skills (emp st r) \<longrightarrow> r = h)"
    by blast
  then have h: "h \<in> set (employees sched)" "skills (emp st h) = {s}"
    "is_available (emp st h) T"
    "\<forall>r \<in> set (employees sched). s \<in> skills (emp st r) \<longrightarrow> r = h"
    by (simp_all add: T_def)
  have av: "get_available_employees st sched T s = [h]"
    unfolding get_available_employees_def
  proof (rule filter_single[OF Cons.prems(1) h(1)])
    show "has_skill (emp st h) s \<and> is_available (emp st h) T"
      using h(2,3) by (simp add: has_skill_def)
    show "\<forall>x \<in> set (employees sched). x \<noteq> h \<longrightarrow>
            \<not> (has_skill (emp st x) s \<and> is_available (emp st x) T)"
      using h(4) by (auto simp: has_skill_def)
  qed
  have sel: "select_best_employee self rnd st [h] pr = (st, Inr h)"
    by (simp add: select_best_employee_def)
  have sz: "s \<in> set (map fst (z # zs))" using z by simp
  have notin: "h \<notin> set A"
  proof
    assume "h \<in> set A"
    with Cons.prems(6) have "skills (emp st h) \<inter> set (map fst (z # zs)) = {}"
      by (simp add: A_def)
    with h(2) sz show False by blast
  qed
  have sreq: "s \<in> set (required_skills (proj st pr))"
    using Cons.prems(5) sz by blast
  have uncovered: "\<forall>e \<in> set A. s \<notin> skills (emp st e)"
  proof
    fix e assume "e \<in> set A"
    with Cons.prems(6) have "skills (emp st e) \<inter> set (map fst (z # zs)) = {}"
      by (simp add: A_def)
    with sz show "s \<notin> skills (emp st e)" by blast
  qed
  have missing: "s \<in> set (get_missing_skills st (proj st pr))"
    using sreq uncovered by (simp add: get_missing_skills_def has_skill_def A_def)
  have lenA: "length A + length zs < 4" using Cons.prems(7) by (simp add: A_def)
  have can: "can_assign_employee st pr h"
    unfolding can_assign_employee_def
    using notin missing h(2,3) lenA
    by (auto simp: is_fully_staffed_def has_skill_def A_def T_def)
  define a where "a = \<lparr>a_employee = h, a_project = pr, a_time_slot = T\<rparr>"
  from assign_employee_success[OF can]
  obtain e' where e': "add_assignment (emp st h) a = Inr e'"
    and asg0: "assign_employee st pr h =
               (st\<lparr>emp := (emp st)(h := e'),
                   proj := (proj st)(pr := (proj st pr)
                     \<lparr>assigned_employees := assigned_employees (proj st pr) @ [h],
                      status := (if length (assigned_employees (proj st pr)) + 1 = 5
                                 then SCHEDULED else status (proj st pr))\<rparr>)\<rparr>, None)"
    unfolding a_def T_def by blast
  define st1 where "st1 = fst (assign_employee st pr h)"
  have asg: "assign_employee st pr h = (st1, None)"
    using asg0 by (simp add: st1_def)
  have emp1: "emp st1 = (emp st)(h := e')"
    using asg0 by (simp add: st1_def)
  have proj1: "proj st1 = (proj st)(pr := (proj st pr)\<lparr>assigned_employees := A @ [h]\<rparr>)"
    using asg0 lenA by (simp add: st1_def A_def)
  have rng1: "rng_pos st1 = rng_pos st"
    using asg0 by (simp add: st1_def)
  have T1: "time_slot (proj st1 pr) = T" by (simp add: proj1 T_def)
  have A1: "assigned_employees (proj st1 pr) = A @ [h]" by (simp add: proj1)
  have R1: "required_skills (proj st1 pr) = required_skills (proj st pr)" by (simp add: proj1)
  have sk1: "skills (emp st1 r) = skills (emp st r)" for r
    using add_assignment_skills[OF e'] by (simp add: emp1)
  have dz: "distinct (map fst zs)" and snot: "s \<notin> set (map fst zs)"
    using Cons.prems(3) z by simp_all
  have hother: "h' \<noteq> h" if m: "(s', h') \<in> set zs" for s' h'
  proof
    assume eq: "h' = h"
    from m have "(s', h') \<in> set (z # zs)" by simp
    with Cons.prems(2) have "skills (emp st h') = {s'}" by blast
    with eq h(2) have "s' = s" by simp
    moreover from m have "s' \<in> set (map fst zs)" by force
    ultimately show False using snot by simp
  qed
  have p2: "\<forall>(s', h') \<in> set zs. h' \<in> set (employees sched) \<and> skills (emp st1 h') = {s'}
          \<and> is_available (emp st1 h') (time_slot (proj st1 pr))
          \<and> (\<forall>r \<in> set (employees sched). s' \<in> skills (emp st1 r) \<longrightarrow> r = h')"
  proof (clarify)
    fix s' h' assume m: "(s', h') \<in> set zs"
    from hother[OF m] have same: "emp st1 h' = emp st h'" by (simp add: emp1)
    from m have "(s', h') \<in> set (z # zs)" by simp
    with Cons.prems(2) have old: "h' \<in> set (employees sched) \<and> skills (emp st h') = {s'}
          \<and> is_available (emp st h') (time_slot (proj st pr))
          \<and> (\<forall>r \<in> set (employees sched). s' \<in> skills (emp st r) \<longrightarrow> r = h')" by blast
    show "h' \<in> set (employees sched) \<and> skills (emp st1 h') = {s'}
          \<and> is_available (emp st1 h') (time_slot (proj st1 pr))
          \<and> (\<forall>r \<in> set (employees sched). s' \<in> skills (emp st1 r) \<longrightarrow> r = h')"
      using old by (simp add: same sk1 T1 T_def)
  qed
  have p4: "\<forall>r \<in> set (employees sched). u \<notin> skills (emp st1 r)"
    using Cons.prems(4) by (simp add: sk1)
  have p5: "set (map fst zs) \<subseteq> set (required_skills (proj st1 pr))"
    using Cons.prems(5) by (simp add: R1)
  have p6: "\<forall>e \<in> set (assigned_employees (proj st1 pr)).
              skills (emp st1 e) \<inter> set (map fst zs) = {}"
  proof
    fix e assume "e \<in> set (assigned_employees (proj st1 pr))"
    then consider "e = h" | "e \<in> set A" by (auto simp: A1)
    then show "skills (emp st1 e) \<inter> set (map fst zs) = {}"
    proof cases
      case 1
      with h(2) snot show ?thesis by (simp add: sk1)
    next
      case 2
      with Cons.prems(6) have "skills (emp st e) \<inter> set (map fst (z # zs)) = {}"
        by (simp add: A_def)
      then show ?thesis by (auto simp: sk1)
    qed
  qed
  have p7: "length (assigned_employees (proj st1 pr)) + length zs < 5"
    using lenA by (simp add: A1)
  from Cons.IH[OF Cons.prems(1) p2 dz p4 p5 p6 p7]
  obtain st' where
    run: "schedule_project_loop self rnd sched st1 pr (map fst zs @ u # post) = (st', Inr False)"
    and pj: "proj st' = (proj st1)(pr := (proj st1 pr)
            \<lparr>assigned_employees := assigned_employees (proj st1 pr) @ map snd zs\<rparr>)"
    and ea: "\<forall>(s', h') \<in> set zs. add_assignment (emp st1 h')
            \<lparr>a_employee = h', a_project = pr, a_time_slot = time_slot (proj st1 pr)\<rparr>
              = Inr (emp st' h')"
    and eo: "\<forall>r. r \<notin> snd ` set zs \<longrightarrow> emp st' r = emp st1 r"
    and rp: "rng_pos st' = rng_pos st1"
    by blast
  have step: "schedule_project_loop self rnd sched st pr (s # (map fst zs @ u # post))
              = schedule_project_loop self rnd sched st1 pr (map fst zs @ u # post)"
    using av sel asg by (simp add: T_def)
  have c1: "schedule_project_loop self rnd sched st pr (map fst (z # zs) @ u # post)
              = (st', Inr False)"
    using step run z by simp
  have c2: "proj st' = (proj st)(pr := (proj st pr)
            \<lparr>assigned_employees := assigned_employees (proj st pr) @ map snd (z # zs)\<rparr>)"
    using z by (simp add: pj proj1 A_def)
  have hz: "h \<notin> snd ` set zs" using hother by force
  have c3: "\<forall>(s', h') \<in> set (z # zs). add_assignment (emp st h')
            \<lparr>a_employee = h', a_project = pr, a_time_slot = time_slot (proj st pr)\<rparr>
               = Inr (emp st' h')"
  proof (clarify)
    fix s' h' assume "(s', h') \<in> set (z # zs)"
    then consider "h' = h" | "(s', h') \<in> set zs" using z by auto
    then show "add_assignment (emp st h')
            \<lparr>a_employee = h', a_project = pr, a_time_slot = time_slot (proj st pr)\<rparr>
               = Inr (emp st' h')"
    proof cases
      case 1
      from eo hz have "emp st' h = emp st1 h" by blast
      with e' 1 show ?thesis by (simp add: emp1 a_def T_def)
    next
      case 2
      with ea have "add_assignment (emp st1 h')
            \<lparr>a_employee = h', a_project = pr, a_time_slot = time_slot (proj st1 pr)\<rparr>
              = Inr (emp st' h')" by blast
      moreover from hother[OF 2] have "emp st1 h' = emp st h'" by (simp add: emp1)
      ultimately show ?thesis by (simp add: T1 T_def)
    qed
  qed
  have c4: "\<forall>r. r \<notin> snd ` set (z # zs) \<longrightarrow> emp st' r = emp st r"
  proof (intro allI impI)
    fix r assume r: "r \<notin> snd ` set (z # zs)"
    then have "r \<noteq> h" "r \<notin> snd ` set zs" using z by auto
    with eo show "emp st' r = emp st r" by (simp add: emp1)
  qed
  have c5: "rng_pos st' = rng_pos st" using rp rng1 by simp
  show ?case
    by (intro exI[of _ st'] conjI) (rule c1, rule c2, rule c3, rule c4, rule c5)
qed

text \<open>
  Claim C7. As stated the claim fails: the loop returns at the first skill without a
  candidate, so when the uncovered skill is not the last of \<open>required_skills\<close> the employees
  holding the later skills are never committed and the failure names every skill that is
  still missing. Amended: when four employees hold the first four required skills, one each
  and nothing else, all are available for the slot, and nobody holds the fifth, the greedy
  pass commits the four in order (each employee gets the project's assignment by
  \<^verbatim>\<open>add_assignment\<close>, nothing else changes), records the project in \<open>failed_projects\<close> with
  exactly the fifth skill as missing, does not count it as scheduled, and goes on with the
  projects that follow.
\<close>

theorem understaffed_project_is_recorded:
  assumes req: "required_skills (proj st pr) = [ska, skb, skc, skd, ske]"
    and dis: "distinct [ska, skb, skc, skd, ske]"
    and none: "assigned_employees (proj st pr) = []"
    and de: "distinct (employees sched)"
    and se: "set (employees sched) = {ea, eb, ec, ed}"
    and sk: "skills (emp st ea) = {ska}" "skills (emp st eb) = {skb}"
            "skills (emp st ec) = {skc}" "skills (emp st ed) = {skd}"
    and av: "is_available (emp st ea) (time_slot (proj st pr))"
            "is_available (emp st eb) (time_slot (proj st pr))"
            "is_available (emp st ec) (time_slot (proj st pr))"
            "is_available (emp st ed) (time_slot (proj st pr))"
  shows "\<exists>st'. schedule_loop self rnd sched st (pr # rest) n failed
              = schedule_loop self rnd sched st' rest n
                  (failed @ [\<lparr>failed_id = proj_id (proj st pr),
                              failed_name = proj_name (proj st pr),
                              missing_skills = [skill_value ske]\<rparr>])
      \<and> assigned_employees (proj st' pr) = [ea, eb, ec, ed]
      \<and> add_assignment (emp st ea)
            \<lparr>a_employee = ea, a_project = pr, a_time_slot = time_slot (proj st pr)\<rparr>
          = Inr (emp st' ea)
      \<and> add_assignment (emp st eb)
            \<lparr>a_employee = eb, a_project = pr, a_time_slot = time_slot (proj st pr)\<rparr>
          = Inr (emp st' eb)
      \<and> add_assignment (emp st ec)
            \<lparr>a_employee = ec, a_project = pr, a_time_slot = time_slot (proj st pr)\<rparr>
          = Inr (emp st' ec)
      \<and> add_assignment (emp st ed)
            \<lparr>a_employee = ed, a_project = pr, a_time_slot = time_slot (proj st pr)\<rparr>
          = Inr (emp st' ed)
      \<and> (\<forall>r. r \<notin> {ea, eb, ec, ed} \<longrightarrow> emp st' r = emp st r)
      \<and> (\<forall>p. p \<noteq> pr \<longrightarrow> proj st' p = proj st p)"
proof -
  define zs where "zs = [(ska, ea), (skb, eb), (skc, ec), (skd, ed)]"
  have h2: "\<forall>(s, h) \<in> set zs. h \<in> set (employees sched) \<and> skills (emp st h) = {s}
          \<and> is_available (emp st h) (time_slot (proj st pr))
          \<and> (\<forall>r \<in> set (employees sched). s \<in> skills (emp st r) \<longrightarrow> r = h)"
    using dis sk av by (auto simp: zs_def se)
  have h3: "distinct (map fst zs)" using dis by (simp add: zs_def)
  have h4: "\<forall>r \<in> set (employees sched). ske \<notin> skills (emp st r)"
    using dis sk by (auto simp: se)
  have h5: "set (map fst zs) \<subseteq> set (required_skills (proj st pr))"
    by (simp add: zs_def req)
  have h6: "\<forall>e \<in> set (assigned_employees (proj st pr)).
              skills (emp st e) \<inter> set (map fst zs) = {}"
    by (simp add: none)
  have h7: "length (assigned_employees (proj st pr)) + length zs < 5"
    by (simp add: none zs_def)
  from loop_single_holders[OF de h2 h3 h4 h5 h6 h7, of self rnd "[]"]
  obtain st' where
    run: "schedule_project_loop self rnd sched st pr (map fst zs @ [ske]) = (st', Inr False)"
    and pj: "proj st' = (proj st)(pr := (proj st pr)
            \<lparr>assigned_employees := assigned_employees (proj st pr) @ map snd zs\<rparr>)"
    and adds: "\<forall>(s, h) \<in> set zs. add_assignment (emp st h)
            \<lparr>a_employee = h, a_project = pr, a_time_slot = time_slot (proj st pr)\<rparr>
              = Inr (emp st' h)"
    and eo: "\<forall>r. r \<notin> snd ` set zs \<longrightarrow> emp st' r = emp st r"
    by blast
  have ms: "get_missing_skills st (proj st pr) = map fst zs @ [ske]"
    by (simp add: get_missing_skills_def none req zs_def)
  have sp: "schedule_project self rnd sched st pr = (st', Inr False)"
    using run by (simp add: schedule_project_def ms)
  have nfs: "\<not> is_fully_staffed (proj st pr)"
    by (simp add: is_fully_staffed_def none)
  have a: "assigned_employees (proj st' pr) = [ea, eb, ec, ed]"
    by (simp add: pj none zs_def)
  have e1: "add_assignment (emp st ea)
            \<lparr>a_employee = ea, a_project = pr, a_time_slot = time_slot (proj st pr)\<rparr>
          = Inr (emp st' ea)"
    and e2: "add_assignment (emp st eb)
            \<lparr>a_employee = eb, a_project = pr, a_time_slot = time_slot (proj st pr)\<rparr>
          = Inr (emp st' eb)"
    and e3: "add_assignment (emp st ec)
            \<lparr>a_employee = ec, a_project = pr, a_time_slot = time_slot (proj st pr)\<rparr>
          = Inr (emp st' ec)"
    and e4: "add_assignment (emp st ed)
            \<lparr>a_employee = ed, a_project = pr, a_time_slot = time_slot (proj st pr)\<rparr>
          = Inr (emp st' ed)"
    using adds by (simp_all add: zs_def)
  have sk': "skills (emp st' ea) = {ska}" "skills (emp st' eb) = {skb}"
            "skills (emp st' ec) = {skc}" "skills (emp st' ed) = {skd}"
    using add_assignment_skills[OF e1] add_assignment_skills[OF e2]
      add_assignment_skills[OF e3] add_assignment_skills[OF e4] sk by simp_all
  have ms': "get_missing_skills st' (proj st' pr) = [ske]"
  proof -
    have "required_skills (proj st' pr) = [ska, skb, skc, skd, ske]"
      by (simp add: pj req)
    with dis show ?thesis
      by (auto simp: get_missing_skills_def a has_skill_def sk')
  qed
  have ids: "proj_id (proj st' pr) = proj_id (proj st pr)"
    "proj_name (proj st' pr) = proj_name (proj st pr)"
    by (simp_all add: pj)
  have loop: "schedule_loop self rnd sched st (pr # rest) n failed
              = schedule_loop self rnd sched st' rest n
                  (failed @ [\<lparr>failed_id = proj_id (proj st pr),
                              failed_name = proj_name (proj st pr),
                              missing_skills = [skill_value ske]\<rparr>])"
    using nfs sp by (simp add: ms' ids)
  have o: "\<forall>r. r \<notin> {ea, eb, ec, ed} \<longrightarrow> emp st' r = emp st r"
    using eo by (simp add: zs_def)
  have p: "\<forall>p. p \<noteq> pr \<longrightarrow> proj st' p = proj st p"
    by (simp add: pj)
  show ?thesis
    by (intro exI[of _ st'] conjI) (rule loop, rule a, rule e1, rule e2, rule e3, rule e4,
        rule o, rule p)
qed

theorem understaffed_project_is_recorded_witness:
  "\<exists>st'. schedule_loop default_greedy no_noise (roster [0, 1, 2, 3]) uncovered_last [0] 0 []
           = (st', Inr (0, [\<lparr>failed_id = 1, failed_name = ''Promo'',
                              missing_skills = [''Audio Engineer'']\<rparr>]))
      \<and> assigned_employees (proj st' 0) = [0, 1, 2, 3]
      \<and> add_assignment (emp uncovered_last 0)
            \<lparr>a_employee = 0, a_project = 0, a_time_slot = slot_of_hours 9 13\<rparr> = Inr (emp st' 0)
      \<and> add_assignment (emp uncovered_last 3)
            \<lparr>a_employee = 3, a_project = 0, a_time_slot = slot_of_hours 9 13\<rparr> = Inr (emp st' 3)"
proof -
  have p: "proj uncovered_last 0 = five_skill_project"
    by (simp add: uncovered_last_def crew_def)
  have f: "required_skills five_skill_project
             = [PRODUCER, EDITOR, GRAPHICS_DESIGNER, COLORIST, AUDIO_ENGINEER]"
    "assigned_employees five_skill_project = []" "proj_id five_skill_project = 1"
    "proj_name five_skill_project = ''Promo''" "time_slot five_skill_project = slot_of_hours 9 13"
    by (simp_all add: five_skill_project_def four_skill_project_def)
  have e: "emp uncovered_last 0 = new_Employee 1 ''Ana'' {PRODUCER}"
    "emp uncovered_last (Suc 0) = new_Employee 2 ''Ben'' {EDITOR}"
    "emp uncovered_last 2 = new_Employee 3 ''Cleo'' {GRAPHICS_DESIGNER}"
    "emp uncovered_last 3 = new_Employee 4 ''Dev'' {COLORIST}"
    by (simp_all add: uncovered_last_def crew_def store_of_def)
  have a: "is_available (new_Employee i n ss) ts" for i n ss ts
    by (simp add: is_available_def new_Employee_def)
  have s: "skills (new_Employee i n ss) = ss" for i n ss
    by (simp add: new_Employee_def)
  have "\<exists>st'. schedule_loop default_greedy no_noise (roster [0, 1, 2, 3]) uncovered_last
                  (0 # []) 0 []
              = schedule_loop default_greedy no_noise (roster [0, 1, 2, 3]) st' [] 0
                  ([] @ [\<lparr>failed_id = proj_id (proj uncovered_last 0),
                              failed_name = proj_name (proj uncovered_last 0),
                              missing_skills = [skill_value AUDIO_ENGINEER]\<rparr>])
      \<and> assigned_employees (proj st' 0) = [0, 1, 2, 3]
      \<and> add_assignment (emp uncovered_last 0)
            \<lparr>a_employee = 0, a_project = 0, a_time_slot = time_slot (proj uncovered_last 0)\<rparr>
          = Inr (emp st' 0)
      \<and> add_assignment (emp uncovered_last 1)
            \<lparr>a_employee = 1, a_project = 0, a_time_slot = time_slot (proj uncovered_last 0)\<rparr>
          = Inr (emp st' 1)
      \<and> add_assignment (emp uncovered_last 2)
            \<lparr>a_employee = 2, a_project = 0, a_time_slot = time_slot (proj uncovered_last 0)\<rparr>
          = Inr (emp st' 2)
      \<and> add_assignment (emp uncovered_last 3)
            \<lparr>a_employee = 3, a_project = 0, a_time_slot = time_slot (proj uncovered_last 0)\<rparr>
          = Inr (emp st' 3)
      \<and> (\<forall>r. r \<notin> {0, 1, 2, 3} \<longrightarrow> emp st' r = emp uncovered_last r)
      \<and> (\<forall>p. p \<noteq> 0 \<longrightarrow> proj st' p = proj uncovered_last p)"
    by (rule understaffed_project_is_recorded[where ska = PRODUCER and skb = EDITOR and skc = GRAPHICS_DESIGNER
          and skd = COLORIST])
       (simp_all add: p f e a s roster_def)
  then obtain st' where
    "schedule_loop default_greedy no_noise (roster [0, 1, 2, 3]) uncovered_last [0] 0 []
       = schedule_loop default_greedy no_noise (roster [0, 1, 2, 3]) st' [] 0
                  ([] @ [\<lparr>failed_id = proj_id (proj uncovered_last 0),
                              failed_name = proj_name (proj uncovered_last 0),
                              missing_skills = [skill_value AUDIO_ENGINEER]\<rparr>])"
    "assigned_employees (proj st' 0) = [0, 1, 2, 3]"
    "add_assignment (emp uncovered_last 0)
            \<lparr>a_employee = 0, a_project = 0, a_time_slot = time_slot (proj uncovered_last 0)\<rparr>
          = Inr (emp st' 0)"
    "add_assignment (emp uncovered_last 3)
            \<lparr>a_employee = 3, a_project = 0, a_time_slot = time_slot (proj uncovered_last 0)\<rparr>
          = Inr (emp st' 3)"
    by blast
  then show ?thesis
    by (intro exI[of _ st']) (simp add: p f skill_value_def)
qed

text \<open>Counterexample to C7 as stated: the four employees hold the last four required skills;
  the run leaves the state as it was (no assignment at all) and the failure names all five
  skills.\<close>

theorem uncovered_first_skill_names_all_five:
  "greedy_schedule default_greedy no_noise (roster [0, 1, 2, 3]) uncovered_first
    = (uncovered_first,
       Inr \<lparr>success = False, scheduled_projects = 0,
            failed_projects = [\<lparr>failed_id = 1, failed_name = ''Promo'',
               missing_skills = [''Producer'', ''Editor'', ''Graphics Designer'', ''Colorist'',
                                 ''Audio Engineer'']\<rparr>],
            warnings = [CouldNotBeFullyStaffed 1],
            statistics = \<lparr>total_employees = 4, total_projects = 1, fully_staffed_projects = 0,
               total_cost = 0, total_regular_hours = 0, total_overtime_hours = 0,
               employees_with_overtime = 0, average_utilization = 0, utilization_std_dev = 0\<rparr>,
            optimization = None\<rparr>)"
  by (simp add: uncovered_first_def run_eval greedy_eval)

section \<open>A commit that fails\<close>

lemma stale_candidates:
  "get_available_employees stale_after_first (roster [0, 1, 2])
             (time_slot (proj stale_after_first 0)) EDITOR = [1, 2]"
  by (simp add: stale_after_first_def stale_skill_def run_eval)

lemma stale_best:
  "snd (select_best_employee default_greedy no_noise stale_after_first [1, 2] 0) = Inr 1"
  by (simp add: stale_after_first_def stale_skill_def run_eval)

lemma stale_commit_fails:
  "snd (assign_employee stale_after_scoring 0 1) = Some (CannotAssign ''Ben'' ''Promo'')"
  by (simp add: stale_after_scoring_def stale_after_first_def stale_skill_def run_eval)

lemma stale_next_candidate_fits:
  "can_assign_employee stale_after_scoring 0 2"
  by (simp add: stale_after_scoring_def stale_after_first_def stale_skill_def run_eval)

lemma stale_run_fails:
  "snd (schedule_project default_greedy no_noise (roster [0, 1, 2]) stale_skill 0) = Inr False"
  by (simp add: stale_skill_def run_eval)

lemma stale_final_assigned:
  "assigned_employees (proj stale_final 0) = [0]"
  by (simp add: stale_final_def stale_skill_def run_eval)

lemma stale_final_unassigned:
  "assignments (emp stale_final 2) = []"
  by (simp add: stale_final_def stale_skill_def run_eval)

text \<open>
  Claim C5. As stated the claim fails: \<^verbatim>\<open>continue\<close> belongs to the loop over the skills,
  and no second candidate is ever tried for a skill. Amended: when the commit of the selected
  candidate raises, the scheduler goes on with the next skill of the list of skills that
  were missing on entry, from a state whose employees and projects are those before the
  attempt (the failed commit changed nothing; only values of the generator were drawn);
  the project is not abandoned.
\<close>

theorem failed_commit_goes_to_next_skill:
  assumes "get_available_employees st sched (time_slot (proj st pr)) skill \<noteq> []"
    and "select_best_employee self rnd st
           (get_available_employees st sched (time_slot (proj st pr)) skill) pr = (st1, Inr best)"
    and "snd (assign_employee st1 pr best) \<noteq> None"
  shows "schedule_project_loop self rnd sched st pr (skill # rest)
           = schedule_project_loop self rnd sched st1 pr rest
       \<and> emp st1 = emp st \<and> proj st1 = proj st
       \<and> \<not> can_assign_employee st1 pr best"
proof -
  from assign_employee_failure[OF assms(3)]
  have f: "fst (assign_employee st1 pr best) = st1" and n: "\<not> can_assign_employee st1 pr best"
    by simp_all
  obtain r where a: "assign_employee st1 pr best = (st1, r)"
    using f by (cases "assign_employee st1 pr best") simp
  have "schedule_project_loop self rnd sched st pr (skill # rest)
           = schedule_project_loop self rnd sched st1 pr rest"
    using assms(1,2) a by (simp split: option.splits)
  moreover have "emp st1 = emp st \<and> proj st1 = proj st"
    using select_best_employee_stores[of self rnd st
        "get_available_employees st sched (time_slot (proj st pr)) skill" pr] assms(2)
    by simp
  ultimately show ?thesis using n by simp
qed

theorem failed_commit_goes_to_next_skill_witness:
  "get_available_employees stale_after_first (roster [0, 1, 2])
      (time_slot (proj stale_after_first 0)) EDITOR \<noteq> []
   \<and> select_best_employee default_greedy no_noise stale_after_first
        (get_available_employees stale_after_first (roster [0, 1, 2])
           (time_slot (proj stale_after_first 0)) EDITOR) 0 = (stale_after_scoring, Inr 1)
   \<and> snd (assign_employee stale_after_scoring 0 1) \<noteq> None
   \<and> schedule_project_loop default_greedy no_noise (roster [0, 1, 2]) stale_after_first 0
        [EDITOR, GRAPHICS_DESIGNER, COLORIST, AUDIO_ENGINEER]
       = schedule_project_loop default_greedy no_noise (roster [0, 1, 2]) stale_after_scoring 0
           [GRAPHICS_DESIGNER, COLORIST, AUDIO_ENGINEER]
   \<and> emp stale_after_scoring = emp stale_after_first
   \<and> proj stale_after_scoring = proj stale_after_first
   \<and> \<not> can_assign_employee stale_after_scoring 0 1"
proof -
  have h1: "get_available_employees stale_after_first (roster [0, 1, 2])
      (time_slot (proj stale_after_first 0)) EDITOR \<noteq> []"
    using stale_candidates by simp
  have h2: "select_best_employee default_greedy no_noise stale_after_first
        (get_available_employees stale_after_first (roster [0, 1, 2])
           (time_slot (proj stale_after_first 0)) EDITOR) 0 = (stale_after_scoring, Inr 1)"
    unfolding stale_candidates
    by (rule prod_eqI) (simp_all only: fst_conv snd_conv stale_after_scoring_def stale_best)
  have h3: "snd (assign_employee stale_after_scoring 0 1) \<noteq> None"
    using stale_commit_fails by simp
  from failed_commit_goes_to_next_skill[OF h1 h2 h3,
      of "[GRAPHICS_DESIGNER, COLORIST, AUDIO_ENGINEER]"] h1 h2 h3
  show ?thesis by (intro conjI) simp_all
qed

text \<open>Counterexample to C5 as stated: Ben, the best candidate for the second skill, cannot be
  committed; Cleo is the next candidate for that skill and could be committed; the scheduler
  goes on to the third skill, finds nobody, and returns with Cleo never committed.\<close>

theorem next_candidate_is_not_tried:
  "get_available_employees stale_after_first (roster [0, 1, 2])
      (time_slot (proj stale_after_first 0)) EDITOR = [1, 2]
   \<and> snd (select_best_employee default_greedy no_noise stale_after_first [1, 2] 0) = Inr 1
   \<and> snd (assign_employee stale_after_scoring 0 1) = Some (CannotAssign ''Ben'' ''Promo'')
   \<and> can_assign_employee stale_after_scoring 0 2
   \<and> snd (schedule_project default_greedy no_noise (roster [0, 1, 2]) stale_skill 0) = Inr False
   \<and> assigned_employees (proj stale_final 0) = [0]
   \<and> assignments (emp stale_final 2) = []"
  by (intro conjI) (rule stale_candidates, rule stale_best, rule stale_commit_fails,
      rule stale_next_candidate_fits, rule stale_run_fails, rule stale_final_assigned,
      rule stale_final_unassigned)

section \<open>The values of the generator decide the run\<close>

lemma same_draws_stores:
  "same_draws rnd1 st1 rnd2 st2 \<Longrightarrow> emp st1 = emp st2"
  "same_draws rnd1 st1 rnd2 st2 \<Longrightarrow> proj st1 = proj st2"
  by (simp_all add: same_draws_def)

lemma calculate_employee_score_same:
  assumes "same_draws rnd1 st1 rnd2 st2"
  shows "snd (calculate_employee_score self rnd1 st1 c pr)
           = snd (calculate_employee_score self rnd2 st2 c pr)
       \<and> same_draws rnd1 (fst (calculate_employee_score self rnd1 st1 c pr))
                     rnd2 (fst (calculate_employee_score self rnd2 st2 c pr))"
proof -
  from assms have e: "emp st1 = emp st2" and p: "proj st1 = proj st2"
    and d: "\<And>k. rnd1 (rng_pos st1 + k) = rnd2 (rng_pos st2 + k)"
    by (simp_all add: same_draws_def)
  from d[of 0] have d0: "rnd1 (rng_pos st1) = rnd2 (rng_pos st2)" by simp
  have ds: "rnd1 (Suc (rng_pos st1 + k)) = rnd2 (Suc (rng_pos st2 + k))" for k
    using d[of "Suc k"] by simp
  show ?thesis
    by (simp add: calculate_employee_score_def Let_def same_draws_def e p d0 ds)
qed

lemma score_candidates_same:
  "same_draws rnd1 st1 rnd2 st2 \<Longrightarrow>
     snd (score_candidates self rnd1 st1 cs pr) = snd (score_candidates self rnd2 st2 cs pr)
     \<and> same_draws rnd1 (fst (score_candidates self rnd1 st1 cs pr))
                   rnd2 (fst (score_candidates self rnd2 st2 cs pr))"
proof (induction cs arbitrary: st1 st2)
  case Nil
  then show ?case by simp
next
  case (Cons c cs)
  obtain a1 x1 where c1: "calculate_employee_score self rnd1 st1 c pr = (a1, x1)"
    by (cases "calculate_employee_score self rnd1 st1 c pr")
  obtain a2 x2 where c2: "calculate_employee_score self rnd2 st2 c pr = (a2, x2)"
    by (cases "calculate_employee_score self rnd2 st2 c pr")
  from calculate_employee_score_same[OF Cons.prems, of self c pr] c1 c2
  have x: "x1 = x2" and s: "same_draws rnd1 a1 rnd2 a2" by simp_all
  obtain b1 y1 where r1: "score_candidates self rnd1 a1 cs pr = (b1, y1)"
    by (cases "score_candidates self rnd1 a1 cs pr")
  obtain b2 y2 where r2: "score_candidates self rnd2 a2 cs pr = (b2, y2)"
    by (cases "score_candidates self rnd2 a2 cs pr")
  from Cons.IH[OF s] r1 r2 have "y1 = y2" "same_draws rnd1 b1 rnd2 b2" by simp_all
  with x c1 c2 r1 r2 show ?case by simp
qed

lemma select_best_employee_same:
  assumes "same_draws rnd1 st1 rnd2 st2"
  shows "snd (select_best_employee self rnd1 st1 cs pr)
           = snd (select_best_employee self rnd2 st2 cs pr)
       \<and> same_draws rnd1 (fst (select_best_employee self rnd1 st1 cs pr))
                     rnd2 (fst (select_best_employee self rnd2 st2 cs pr))"
proof -
  obtain b1 y1 where r1: "score_candidates self rnd1 st1 cs pr = (b1, y1)"
    by (cases "score_candidates self rnd1 st1 cs pr")
  obtain b2 y2 where r2: "score_candidates self rnd2 st2 cs pr = (b2, y2)"
    by (cases "score_candidates self rnd2 st2 cs pr")
  from score_candidates_same[OF assms, of self cs pr] r1 r2
  have "y1 = y2" "same_draws rnd1 b1 rnd2 b2" by simp_all
  show ?thesis
  proof (cases cs)
    case Nil
    with assms show ?thesis by (simp add: select_best_employee_def)
  next
    case (Cons c cs')
    show ?thesis
    proof (cases cs')
      case Nil
      with Cons assms show ?thesis by (simp add: select_best_employee_def)
    next
      case (Cons c' cs'')
      have u1: "select_best_employee self rnd1 st1 cs pr =
          (case sort_key (\<lambda>x. - fst x) y1 of
             [] \<Rightarrow> (b1, Inl IndexError) | x # _ \<Rightarrow> (b1, Inr (snd x)))"
        unfolding select_best_employee_def r1 using Cons \<open>cs = c # cs'\<close>
        by (simp del: score_candidates.simps)
      have u2: "select_best_employee self rnd2 st2 cs pr =
          (case sort_key (\<lambda>x. - fst x) y2 of
             [] \<Rightarrow> (b2, Inl IndexError) | x # _ \<Rightarrow> (b2, Inr (snd x)))"
        unfolding select_best_employee_def r2 using Cons \<open>cs = c # cs'\<close>
        by (simp del: score_candidates.simps)
      from \<open>y1 = y2\<close> \<open>same_draws rnd1 b1 rnd2 b2\<close> show ?thesis
        by (simp add: u1 u2 split: list.splits)
    qed
  qed
qed

lemma assign_employee_same:
  assumes "same_draws rnd1 st1 rnd2 st2"
  shows "snd (assign_employee st1 pr er) = snd (assign_employee st2 pr er)
       \<and> same_draws rnd1 (fst (assign_employee st1 pr er)) rnd2 (fst (assign_employee st2 pr er))"
proof -
  from assms have e: "emp st1 = emp st2" and p: "proj st1 = proj st2"
    and d: "\<forall>k. rnd1 (rng_pos st1 + k) = rnd2 (rng_pos st2 + k)"
    by (simp_all add: same_draws_def)
  have c: "can_assign_employee st1 pr er = can_assign_employee st2 pr er"
    by (simp only: can_assign_employee_def get_missing_skills_def e p)
  show ?thesis
  proof (cases "can_assign_employee st2 pr er")
    case False
    with c assms show ?thesis by (simp add: assign_employee_def e p)
  next
    case True
    with c have c1: "can_assign_employee st1 pr er" by simp
    from assign_employee_success[OF c1] obtain e1 where
      a1: "add_assignment (emp st1 er)
             \<lparr>a_employee = er, a_project = pr, a_time_slot = time_slot (proj st1 pr)\<rparr> = Inr e1"
      and r1: "assign_employee st1 pr er =
               (st1\<lparr>emp := (emp st1)(er := e1),
                   proj := (proj st1)(pr := (proj st1 pr)
                     \<lparr>assigned_employees := assigned_employees (proj st1 pr) @ [er],
                      status := (if length (assigned_employees (proj st1 pr)) + 1 = 5
                                 then SCHEDULED else status (proj st1 pr))\<rparr>)\<rparr>, None)"
      by blast
    from assign_employee_success[OF True] obtain e2 where
      a2: "add_assignment (emp st2 er)
             \<lparr>a_employee = er, a_project = pr, a_time_slot = time_slot (proj st2 pr)\<rparr> = Inr e2"
      and r2: "assign_employee st2 pr er =
               (st2\<lparr>emp := (emp st2)(er := e2),
                   proj := (proj st2)(pr := (proj st2 pr)
                     \<lparr>assigned_employees := assigned_employees (proj st2 pr) @ [er],
                      status := (if length (assigned_employees (proj st2 pr)) + 1 = 5
                                 then SCHEDULED else status (proj st2 pr))\<rparr>)\<rparr>, None)"
      by blast
    from a1 a2 have "e1 = e2" by (simp add: e p)
    with d show ?thesis by (simp add: r1 r2 same_draws_def e p)
  qed
qed

lemma schedule_project_loop_same:
  "same_draws rnd1 st1 rnd2 st2 \<Longrightarrow>
     snd (schedule_project_loop self rnd1 sched st1 pr ss)
       = snd (schedule_project_loop self rnd2 sched st2 pr ss)
     \<and> same_draws rnd1 (fst (schedule_project_loop self rnd1 sched st1 pr ss))
                   rnd2 (fst (schedule_project_loop self rnd2 sched st2 pr ss))"
proof (induction ss arbitrary: st1 st2)
  case Nil
  then show ?case by (simp add: same_draws_stores)
next
  case (Cons s ss)
  from Cons.prems have e: "emp st1 = emp st2" and p: "proj st1 = proj st2"
    by (simp_all add: same_draws_def)
  define av where "av = get_available_employees st2 sched (time_slot (proj st2 pr)) s"
  have av1: "get_available_employees st1 sched (time_slot (proj st1 pr)) s = av"
    by (simp add: av_def get_available_employees_def e p)
  show ?case
  proof (cases "av = []")
    case True
    with Cons.prems av1 show ?thesis by (simp add: av_def[symmetric])
  next
    case False
    obtain a1 x1 where s1: "select_best_employee self rnd1 st1 av pr = (a1, x1)"
      by (cases "select_best_employee self rnd1 st1 av pr")
    obtain a2 x2 where s2: "select_best_employee self rnd2 st2 av pr = (a2, x2)"
      by (cases "select_best_employee self rnd2 st2 av pr")
    from select_best_employee_same[OF Cons.prems, of self av pr] s1 s2
    have x: "x1 = x2" and sa: "same_draws rnd1 a1 rnd2 a2" by simp_all
    show ?thesis
    proof (cases x2)
      case (Inl err)
      with False av1 s1 s2 x sa show ?thesis by (simp add: av_def[symmetric])
    next
      case (Inr best)
      obtain b1 y1 where g1: "assign_employee a1 pr best = (b1, y1)"
        by (cases "assign_employee a1 pr best")
      obtain b2 y2 where g2: "assign_employee a2 pr best = (b2, y2)"
        by (cases "assign_employee a2 pr best")
      from assign_employee_same[OF sa, of pr best] g1 g2
      have "y1 = y2" and sb: "same_draws rnd1 b1 rnd2 b2" by simp_all
      from Cons.IH[OF sb] False av1 s1 s2 x Inr g1 g2 show ?thesis
        by (simp add: av_def[symmetric] split: option.splits)
    qed
  qed
qed

lemma schedule_loop_same:
  "same_draws rnd1 st1 rnd2 st2 \<Longrightarrow>
     snd (schedule_loop self rnd1 sched st1 ps n failed)
       = snd (schedule_loop self rnd2 sched st2 ps n failed)
     \<and> same_draws rnd1 (fst (schedule_loop self rnd1 sched st1 ps n failed))
                   rnd2 (fst (schedule_loop self rnd2 sched st2 ps n failed))"
proof (induction ps arbitrary: st1 st2 n failed)
  case Nil
  then show ?case by simp
next
  case (Cons pr ps)
  from Cons.prems have e: "emp st1 = emp st2" and p: "proj st1 = proj st2"
    by (simp_all add: same_draws_def)
  show ?case
  proof (cases "is_fully_staffed (proj st2 pr)")
    case True
    with Cons.IH[OF Cons.prems] show ?thesis by (simp add: p)
  next
    case False
    obtain a1 x1 where s1: "schedule_project self rnd1 sched st1 pr = (a1, x1)"
      by (cases "schedule_project self rnd1 sched st1 pr")
    obtain a2 x2 where s2: "schedule_project self rnd2 sched st2 pr = (a2, x2)"
      by (cases "schedule_project self rnd2 sched st2 pr")
    have m: "get_missing_skills st1 (proj st1 pr) = get_missing_skills st2 (proj st2 pr)"
      by (simp add: get_missing_skills_def e p)
    from schedule_project_loop_same[OF Cons.prems, of self sched pr
        "get_missing_skills st2 (proj st2 pr)"] s1 s2
    have x: "x1 = x2" and sa: "same_draws rnd1 a1 rnd2 a2"
      by (simp_all add: schedule_project_def m)
    from sa have e': "emp a1 = emp a2" and p': "proj a1 = proj a2"
      by (simp_all add: same_draws_def)
    have m': "get_missing_skills a1 (proj a2 pr) = get_missing_skills a2 (proj a2 pr)"
      by (simp add: get_missing_skills_def e')
    show ?thesis
    proof (cases x2)
      case (Inl err)
      with False s1 s2 x sa show ?thesis by (simp add: p)
    next
      case (Inr ok)
      with False s1 s2 x Cons.IH[OF sa] show ?thesis by (simp add: p p' m')
    qed
  qed
qed

lemma calculate_statistics_same:
  "emp st1 = emp st2 \<Longrightarrow> proj st1 = proj st2 \<Longrightarrow>
     calculate_statistics st1 sched = calculate_statistics st2 sched"
  by (simp add: calculate_statistics_def schedule_total_cost_def)

lemma greedy_schedule_unfold:
  assumes "schedule_loop self rnd sched st
             (sort_key (\<lambda>p. (- priority (proj st p), ts_start (time_slot (proj st p))))
                (projects sched)) 0 [] = (a, x)"
  shows "greedy_schedule self rnd sched st =
           (case x of
              Inl e \<Rightarrow> (a, Inl e)
            | Inr nf \<Rightarrow>
                (a, Inr \<lparr>success = (snd nf = []),
                         scheduled_projects = fst nf,
                         failed_projects = snd nf,
                         warnings = (if snd nf \<noteq> [] then [CouldNotBeFullyStaffed (length (snd nf))]
                                     else []),
                         statistics = calculate_statistics a sched,
                         optimization = None\<rparr>))"
proof (cases x)
  case (Inl e)
  with assms show ?thesis by (simp add: greedy_schedule_def)
next
  case (Inr nf)
  obtain n f where "nf = (n, f)" by (cases nf)
  with Inr assms show ?thesis by (simp add: greedy_schedule_def)
qed

lemma greedy_schedule_same:
  assumes "same_draws rnd1 st1 rnd2 st2"
  shows "snd (greedy_schedule self rnd1 sched st1) = snd (greedy_schedule self rnd2 sched st2)
       \<and> same_draws rnd1 (fst (greedy_schedule self rnd1 sched st1))
                     rnd2 (fst (greedy_schedule self rnd2 sched st2))"
proof -
  from assms have p: "proj st1 = proj st2" by (simp add: same_draws_def)
  define ps where "ps = sort_key (\<lambda>p. (- priority (proj st2 p), ts_start (time_slot (proj st2 p))))
                          (projects sched)"
  obtain a1 x1 where s1: "schedule_loop self rnd1 sched st1 ps 0 [] = (a1, x1)"
    by (cases "schedule_loop self rnd1 sched st1 ps 0 []")
  obtain a2 x2 where s2: "schedule_loop self rnd2 sched st2 ps 0 [] = (a2, x2)"
    by (cases "schedule_loop self rnd2 sched st2 ps 0 []")
  from schedule_loop_same[OF assms, of self sched ps 0 "[]"] s1 s2
  have x: "x1 = x2" and sa: "same_draws rnd1 a1 rnd2 a2" by simp_all
  from sa have "emp a1 = emp a2" "proj a1 = proj a2" by (simp_all add: same_draws_def)
  then have cs: "calculate_statistics a1 sched = calculate_statistics a2 sched"
    by (rule calculate_statistics_same)
  have g1: "greedy_schedule self rnd1 sched st1 =
           (case x2 of
              Inl e \<Rightarrow> (a1, Inl e)
            | Inr nf \<Rightarrow>
                (a1, Inr \<lparr>success = (snd nf = []),
                         scheduled_projects = fst nf,
                         failed_projects = snd nf,
                         warnings = (if snd nf \<noteq> [] then [CouldNotBeFullyStaffed (length (snd nf))]
                                     else []),
                         statistics = calculate_statistics a2 sched,
                         optimization = None\<rparr>))"
    using greedy_schedule_unfold[of self rnd1 sched st1 a1 x1] s1
    by (simp only: p ps_def[symmetric] x cs)
  have g2: "greedy_schedule self rnd2 sched st2 =
           (case x2 of
              Inl e \<Rightarrow> (a2, Inl e)
            | Inr nf \<Rightarrow>
                (a2, Inr \<lparr>success = (snd nf = []),
                         scheduled_projects = fst nf,
                         failed_projects = snd nf,
                         warnings = (if snd nf \<noteq> [] then [CouldNotBeFullyStaffed (length (snd nf))]
                                     else []),
                         statistics = calculate_statistics a2 sched,
                         optimization = None\<rparr>))"
    using greedy_schedule_unfold[of self rnd2 sched st2 a2 x2] s2
    by (simp only: ps_def[symmetric])
  show ?thesis
  proof (cases x2)
    case (Inl e)
    with sa show ?thesis by (simp add: g1 g2)
  next
    case (Inr nf)
    with sa show ?thesis by (simp add: g1 g2)
  qed
qed

lemma optimized_schedule_same:
  assumes "same_draws rnd1 st1 rnd2 st2"
  shows "snd (optimized_schedule opt rnd1 sched st1) = snd (optimized_schedule opt rnd2 sched st2)
       \<and> same_draws rnd1 (fst (optimized_schedule opt rnd1 sched st1))
                     rnd2 (fst (optimized_schedule opt rnd2 sched st2))"
proof -
  let ?G = "\<lparr>balance_workload = True, minimize_overtime = True\<rparr>"
  obtain a1 x1 where g1: "greedy_schedule ?G rnd1 sched st1 = (a1, x1)"
    by (cases "greedy_schedule ?G rnd1 sched st1")
  obtain a2 x2 where g2: "greedy_schedule ?G rnd2 sched st2 = (a2, x2)"
    by (cases "greedy_schedule ?G rnd2 sched st2")
  from greedy_schedule_same[OF assms, of ?G sched] g1 g2
  have x: "x1 = x2" and sa: "same_draws rnd1 a1 rnd2 a2" by simp_all
  from sa have e: "emp a1 = emp a2" and p: "proj a1 = proj a2" by (simp_all add: same_draws_def)
  from e p have cs: "calculate_statistics a1 sched = calculate_statistics a2 sched"
    by (rule calculate_statistics_same)
  have tc: "schedule_total_cost a1 sched = schedule_total_cost a2 sched"
    by (simp add: schedule_total_cost_def e)
  have "snd (optimized_schedule opt rnd1 sched st1) = snd (optimized_schedule opt rnd2 sched st2)"
    using optimized_schedule_unfold(2)[OF g1, of opt] optimized_schedule_unfold(2)[OF g2, of opt]
    by (simp only: x cs tc p)
  moreover have "fst (optimized_schedule opt rnd1 sched st1) = a1"
    "fst (optimized_schedule opt rnd2 sched st2) = a2"
    using optimized_schedule_unfold(1)[OF g1, of opt] optimized_schedule_unfold(1)[OF g2, of opt]
    by simp_all
  ultimately show ?thesis using sa by simp
qed

text \<open>
  Claim C6. As stated the claim fails: the scheduler takes no seed and draws from the
  generator of the \<^verbatim>\<open>random\<close> module, which the whole process shares, so a second run on an
  identical schedule goes on from where the first one left the generator. Amended: a run is
  decided by the schedule, the strategy, the options and the values that the shared
  generator yields during the run: two runs (greedy or optimized) that start with the same
  employees and projects, and for which the generator yields the same values from their
  starting positions on, end with the same employees, projects and results, statistics
  included.
\<close>

theorem same_draws_give_same_run:
  assumes "emp st1 = emp st2" and "proj st1 = proj st2"
    and "\<forall>k. rnd1 (rng_pos st1 + k) = rnd2 (rng_pos st2 + k)"
  shows "snd (greedy_schedule self rnd1 sched st1) = snd (greedy_schedule self rnd2 sched st2)
       \<and> emp (fst (greedy_schedule self rnd1 sched st1))
           = emp (fst (greedy_schedule self rnd2 sched st2))
       \<and> proj (fst (greedy_schedule self rnd1 sched st1))
           = proj (fst (greedy_schedule self rnd2 sched st2))
       \<and> snd (optimized_schedule opt rnd1 sched st1) = snd (optimized_schedule opt rnd2 sched st2)
       \<and> emp (fst (optimized_schedule opt rnd1 sched st1))
           = emp (fst (optimized_schedule opt rnd2 sched st2))
       \<and> proj (fst (optimized_schedule opt rnd1 sched st1))
           = proj (fst (optimized_schedule opt rnd2 sched st2))"
proof -
  from assms have s: "same_draws rnd1 st1 rnd2 st2" by (simp add: same_draws_def)
  from greedy_schedule_same[OF s, of self sched] optimized_schedule_same[OF s, of opt sched]
  show ?thesis by (simp add: same_draws_def)
qed

theorem same_draws_give_same_run_witness:
  "emp two_producers = emp (two_producers\<lparr>rng_pos := 2\<rparr>)
   \<and> proj two_producers = proj (two_producers\<lparr>rng_pos := 2\<rparr>)
   \<and> (\<forall>k. some_noise (rng_pos two_producers + k)
            = delayed_noise (rng_pos (two_producers\<lparr>rng_pos := 2\<rparr>) + k))
   \<and> snd (greedy_schedule default_greedy some_noise (roster [0, 1]) two_producers)
       = snd (greedy_schedule default_greedy delayed_noise (roster [0, 1])
               (two_producers\<lparr>rng_pos := 2\<rparr>))
   \<and> proj (fst (greedy_schedule default_greedy some_noise (roster [0, 1]) two_producers))
       = proj (fst (greedy_schedule default_greedy delayed_noise (roster [0, 1])
               (two_producers\<lparr>rng_pos := 2\<rparr>)))"
proof -
  have h: "emp two_producers = emp (two_producers\<lparr>rng_pos := 2\<rparr>)"
    "proj two_producers = proj (two_producers\<lparr>rng_pos := 2\<rparr>)"
    by simp_all
  have d: "\<forall>k. some_noise (rng_pos two_producers + k)
            = delayed_noise (rng_pos (two_producers\<lparr>rng_pos := 2\<rparr>) + k)"
    by (simp add: delayed_noise_def two_producers_def crew_def)
  from same_draws_give_same_run[OF h d, of default_greedy "roster [0, 1]"] h d
  show ?thesis by simp
qed

text \<open>Counterexample to C6 as stated: two employees tie for the first skill; on the first run
  the generator favours the first of them and is left two draws further; a second run on
  the identical schedule, with the same strategy and options, then commits the other one.\<close>

theorem shared_generator_changes_second_run:
  "assigned_employees
       (proj (fst (greedy_schedule default_greedy some_noise (roster [0, 1]) two_producers)) 0)
     = [0]
   \<and> rng_pos (fst (greedy_schedule default_greedy some_noise (roster [0, 1]) two_producers)) = 2
   \<and> assigned_employees
       (proj (fst (greedy_schedule default_greedy some_noise (roster [0, 1])
                (two_producers\<lparr>rng_pos := 2\<rparr>))) 0)
     = [1]"
proof -
  have a: "assigned_employees
       (proj (fst (greedy_schedule default_greedy some_noise (roster [0, 1]) two_producers)) 0)
     = [0]"
    by (simp add: two_producers_def run_eval greedy_schedule_def)
  have b: "rng_pos (fst (greedy_schedule default_greedy some_noise (roster [0, 1]) two_producers))
      = 2"
    by (simp add: two_producers_def run_eval greedy_schedule_def)
  have c: "assigned_employees
       (proj (fst (greedy_schedule default_greedy some_noise (roster [0, 1])
                (two_producers\<lparr>rng_pos := 2\<rparr>))) 0)
     = [1]"
    by (simp add: two_producers_def run_eval greedy_schedule_def)
  from a b c show ?thesis by (intro conjI)
qed

end
